theory Spec2Isabelle
  imports Complex_Main
begin

section \<open>The marble world of \<open>model.py\<close>\<close>

text \<open>
  The class \<open>MarbleWorld\<close> drives a rigid-body engine (pymunk): it creates bodies and
  shapes, hands them to the engine's space, and then calls \<open>space.step\<close> once per loop
  iteration. The engine calls back into the class: the two \<open>begin\<close> collision handlers
  while it looks for contacts, and every dynamic body's \<open>velocity_func\<close> when it updates
  velocities. The class is embedded as it is written; the engine is a parameter. Python
  floats are read as real numbers, and Python ints as \<open>int\<close>.
\<close>

subsection \<open>Data\<close>

type_synonym vec = "real \<times> real"

datatype body_type = DYNAMIC | STATIC

text \<open>The attributes of a \<open>pymunk.Body\<close> that the engine owns.\<close>

record body =
  body_type :: body_type
  position :: vec
  velocity :: vec
  angle :: real

text \<open>
  \<open>delayed_velocity\<close> is a closure over \<open>velocity\<close>, \<open>delay\<close> and \<open>noisy\<close>. The two steps
  are whatever the configuration holds: an integer, or Python's \<open>None\<close>, which compares
  unequal to every step.
\<close>

datatype velocity_func =
  update_velocity_default
  | delayed_velocity_closure vec "int option" "int option"

text \<open>
  A body object as the class sees it: the engine's attributes, the \<open>name\<close> attribute the
  class attaches, and the velocity function installed on it. Objects live in a store indexed
  by address, since the registry, the space and the shapes all refer to the same object.
\<close>

record body_obj =
  body :: body
  name :: string
  velocity_func :: velocity_func

datatype geometry = Circle real | Box real real

record shape =
  shape_body :: nat
  geometry :: geometry
  elasticity :: real
  friction :: real
  mass :: real
  collision_type :: nat

record event =
  ev_objects :: "string \<times> string"
  ev_step :: int

record events =
  collisions :: "event list"
  wall_bounces :: "event list"
  outcome :: "string \<rightharpoonup> bool"
  outcome_dists :: "string \<rightharpoonup> real"

record wall =
  wall_name :: string
  wall_position :: vec
  wall_length :: real
  wall_height :: real
  wall_color :: string

record marble =
  marble_position :: vec
  marble_velocity :: vec
  marble_delay :: "int option"
  marble_noisy :: "int option"

text \<open>
  The instance. \<open>space_hidden\<close> is whatever the engine keeps between steps;
  \<open>space_bodies\<close> and \<open>space_shapes\<close> are what was passed to \<open>space.add\<close>, in order.
  \<open>bodies\<close> and \<open>shapes\<close> are the two ordered dictionaries keyed by name; a shape is never
  changed after its creation, so the dictionary holds its value.
\<close>

record 'h world =
  step :: int
  space_hidden :: 'h
  space_bodies :: "nat list"
  space_shapes :: "shape list"
  objs :: "nat \<Rightarrow> body_obj"
  n_objs :: nat
  events :: events
  bodies :: "(string \<times> nat) list"
  shapes :: "(string \<times> shape) list"
  path_record_bodies :: "string list"
  outcome_record_bodies :: "string list"
  walls :: "wall list"

datatype error = KeyError string

subsection \<open>World constants\<close>

definition full_length :: real where "full_length = 800"
definition full_height :: real where "full_height = 600"
definition marble_size :: real where "marble_size = 60"
definition speed :: real where "speed = 200"
definition step_size :: real where "step_size = 1 / 50"
definition time_max :: real where "time_max = 15"
definition step_max :: int where "step_max = \<lfloor>time_max / step_size\<rfloor>"

text \<open>
  \<open>step_max\<close> is 750 here, and in the source's double arithmetic as well
  (\<open>15 / (1/50)\<close> rounds to \<open>750.0\<close>).
\<close>

definition collision_types_static :: nat where "collision_types_static = 0"
definition collision_types_dynamic :: nat where "collision_types_dynamic = 1"

definition wall_thickness :: real where "wall_thickness = 20"
definition exit_portion :: real where "exit_portion = 1 / 3"
definition exit_position :: vec where
  "exit_position = (wall_thickness / 2, full_height / 2)"

definition default_walls :: "wall list" where
  "default_walls =
    [\<lparr>wall_name = ''top_wall'',
      wall_position = (full_length / 2, full_height - wall_thickness / 2),
      wall_length = full_length, wall_height = wall_thickness, wall_color = ''black''\<rparr>,
     \<lparr>wall_name = ''bottom_wall'',
      wall_position = (full_length / 2, wall_thickness / 2),
      wall_length = full_length, wall_height = wall_thickness, wall_color = ''black''\<rparr>,
     \<lparr>wall_name = ''top_left_wall'',
      wall_position = (wall_thickness / 2, full_height * (1 - (1 - exit_portion) / 4)),
      wall_length = wall_thickness, wall_height = full_height * (1 - exit_portion) / 2,
      wall_color = ''black''\<rparr>,
     \<lparr>wall_name = ''bottom_left_wall'',
      wall_position = (wall_thickness / 2, full_height * (1 - exit_portion) / 4),
      wall_length = wall_thickness, wall_height = full_height * (1 - exit_portion) / 2,
      wall_color = ''black''\<rparr>,
     \<lparr>wall_name = ''exit'', wall_position = exit_position, wall_length = wall_thickness,
      wall_height = full_height * exit_portion, wall_color = ''red''\<rparr>]"

text \<open>\<open>exit_dist\<close>: the squared distance of a point to the exit's centre.\<close>

definition exit_dist :: "vec \<Rightarrow> real" where
  "exit_dist pos = (fst exit_position - fst pos)\<^sup>2 + (snd exit_position - snd pos)\<^sup>2"

subsection \<open>World initialisation\<close>

text \<open>
  \<open>add_wall\<close> creates a static body and a box on it, and adds the box (only the box) to
  the space. Friction and mass of the box are the engine's defaults, zero.
\<close>

definition add_wall :: "'h world \<Rightarrow> vec \<Rightarrow> real \<Rightarrow> real \<Rightarrow> string \<Rightarrow> 'h world \<times> shape" where
  "add_wall self pos len hgt nm =
    (let a = n_objs self;
         b = \<lparr>body_type = STATIC, position = pos, velocity = (0, 0), angle = 0\<rparr>;
         wl = \<lparr>shape_body = a, geometry = Box len hgt, elasticity = 1, friction = 0,
               mass = 0, collision_type = collision_types_static\<rparr>
     in (self\<lparr>objs := (objs self)(a := \<lparr>body = b, name = nm,
                                           velocity_func = update_velocity_default\<rparr>),
               n_objs := a + 1,
               space_shapes := space_shapes self @ [wl]\<rparr>, wl))"

text \<open>
  A Python dictionary assignment \<open>d[k] = v\<close> on an ordered dictionary: an existing key
  keeps its place and gets the new value, a new key goes to the end.
\<close>

fun dict_set :: "('k \<times> 'v) list \<Rightarrow> 'k \<Rightarrow> 'v \<Rightarrow> ('k \<times> 'v) list" where
  "dict_set [] k v = [(k, v)]"
| "dict_set ((k', v') # d) k v = (if k' = k then (k, v) # d else (k', v') # dict_set d k v)"

fun dict_get :: "('k \<times> 'v) list \<Rightarrow> 'k \<Rightarrow> 'v option" where
  "dict_get [] k = None"
| "dict_get ((k', v') # d) k = (if k' = k then Some v' else dict_get d k)"

text \<open>
  \<open>add_marble\<close> creates a dynamic body at rest and a circle of radius \<open>marble_size/2\<close> on
  it, adds both to the space, enters both in the dictionaries under \<open>name\<close> and installs
  the closure \<open>delayed_velocity\<close> as the body's velocity function.
\<close>

definition add_marble ::
  "'h world \<Rightarrow> vec \<Rightarrow> vec \<Rightarrow> string \<Rightarrow> int option \<Rightarrow> int option \<Rightarrow> 'h world \<times> (nat \<times> shape)" where
  "add_marble self pos vel nm delay noisy =
    (let a = n_objs self;
         sh = \<lparr>shape_body = a, geometry = Circle (marble_size / 2), elasticity = 1,
               friction = 0, mass = 1, collision_type = collision_types_dynamic\<rparr>;
         b = \<lparr>body_type = DYNAMIC, position = pos, velocity = (0, 0), angle = 0\<rparr>
     in (self\<lparr>objs := (objs self)(a := \<lparr>body = b, name = nm,
                          velocity_func = delayed_velocity_closure vel delay noisy\<rparr>),
               n_objs := a + 1,
               space_bodies := space_bodies self @ [a],
               space_shapes := space_shapes self @ [sh],
               bodies := dict_set (bodies self) nm a,
               shapes := dict_set (shapes self) nm sh\<rparr>, (a, sh)))"

definition empty_body_obj :: body_obj where
  "empty_body_obj = \<lparr>body = \<lparr>body_type = STATIC, position = (0, 0), velocity = (0, 0),
      angle = 0\<rparr>, name = [], velocity_func = update_velocity_default\<rparr>"

text \<open>
  \<open>__init__\<close>. \<open>h0\<close> is the hidden state of a new, empty \<open>pymunk.Space()\<close>. \<open>marbles\<close> is
  the dictionary of marble specifications in its iteration order. The \<open>gate\<close> argument is
  not used by the source. The two collision handlers registered at the end are fixed, and
  are dispatched in \<open>space_step\<close> below. No statement of \<open>__init__\<close>, \<open>add_wall\<close> or
  \<open>add_marble\<close> raises.
\<close>

definition add_walls :: "wall list \<Rightarrow> 'h world \<Rightarrow> 'h world" where
  "add_walls ws self =
    fold (\<lambda>wl self. if wall_name wl \<noteq> ''exit''
            then fst (add_wall self (wall_position wl) (wall_length wl) (wall_height wl)
                        (wall_name wl))
            else self) ws self"

definition add_marbles :: "(string \<times> marble) list \<Rightarrow> 'h world \<Rightarrow> 'h world" where
  "add_marbles ms self =
    fold (\<lambda>(mname, m) self. fst (add_marble self (marble_position m) (marble_velocity m)
            mname (marble_delay m) (marble_noisy m))) ms self"

definition MarbleWorld_init ::
  "'h \<Rightarrow> (string \<times> marble) list \<Rightarrow> wall list \<Rightarrow> bool \<Rightarrow> string list \<Rightarrow> string list \<Rightarrow> 'h world" where
  "MarbleWorld_init h0 marbles extra_walls gate prb orb =
    (let self = \<lparr>step = 0, space_hidden = h0, space_bodies = [], space_shapes = [],
                 objs = (\<lambda>a. empty_body_obj), n_objs = 0,
                 events = \<lparr>collisions = [], wall_bounces = [], outcome = Map.empty,
                           outcome_dists = Map.empty\<rparr>,
                 bodies = [], shapes = [],
                 path_record_bodies = prb, outcome_record_bodies = orb,
                 walls = default_walls @ extra_walls\<rparr>;
         self = add_walls (walls self) self;
         self = add_marbles marbles self
     in self)"

text \<open>
  The constructor call \<open>MarbleWorld(...)\<close> as an expression that may raise: it returns the
  new instance, since nothing in \<open>__init__\<close> raises.
\<close>

definition MarbleWorld ::
  "'h \<Rightarrow> (string \<times> marble) list \<Rightarrow> wall list \<Rightarrow> bool \<Rightarrow> string list \<Rightarrow> string list
     \<Rightarrow> error + 'h world" where
  "MarbleWorld h0 marbles extra_walls gate prb orb =
    Inr (MarbleWorld_init h0 marbles extra_walls gate prb orb)"

subsection \<open>The libraries the class runs on\<close>

text \<open>
  The engine is not part of the program, so it is a parameter. One call of \<open>space.step\<close> is,
  in the engine's own order: \<open>collide\<close> (move the bodies and find the contacts that begin at
  this step, for which it calls the \<open>begin\<close> handlers), then every added body's velocity
  function, then \<open>solve\<close> (the impulse solver). Both phases see the added bodies and shapes,
  the hidden state and the bodies' own attributes, and nothing of what the class attaches to
  a body. \<open>new_space\<close> is the hidden state of a new, empty space. \<open>gauss\<close> is the
  random source: a sample for a mean and a standard deviation, and the generator's next
  state.
\<close>

record ('h, 'r) platform =
  new_space :: 'h
  collide :: "real \<Rightarrow> nat list \<Rightarrow> shape list \<Rightarrow> 'h \<Rightarrow> (nat \<Rightarrow> body)
                \<Rightarrow> ('h \<times> (nat \<Rightarrow> body)) \<times> (shape \<times> shape) list"
  solve :: "real \<Rightarrow> nat list \<Rightarrow> shape list \<Rightarrow> 'h \<Rightarrow> (nat \<Rightarrow> body) \<Rightarrow> 'h \<times> (nat \<Rightarrow> body)"
  gauss :: "real \<Rightarrow> real \<Rightarrow> 'r \<Rightarrow> real \<times> 'r"

text \<open>
  The two operations of a body that \<open>delayed_velocity\<close> calls, as the engine documents
  them. \<open>update_velocity\<close> is the default velocity integration; the class never applies a
  force, so the force term is absent. \<open>apply_impulse_at_local_point\<close> at the centre of
  gravity adds the impulse, turned by the body's angle and divided by the body's mass, to
  the velocity.
\<close>

definition update_velocity :: "body \<Rightarrow> vec \<Rightarrow> real \<Rightarrow> real \<Rightarrow> body" where
  "update_velocity b gravity damping dt =
    b\<lparr>velocity := (fst (velocity b) * damping + fst gravity * dt,
                   snd (velocity b) * damping + snd gravity * dt)\<rparr>"

definition apply_impulse_at_local_point :: "body \<Rightarrow> real \<Rightarrow> vec \<Rightarrow> body" where
  "apply_impulse_at_local_point b m impulse =
    (let jx = fst impulse * cos (angle b) - snd impulse * sin (angle b);
         jy = fst impulse * sin (angle b) + snd impulse * cos (angle b)
     in b\<lparr>velocity := (fst (velocity b) + jx / m, snd (velocity b) + jy / m)\<rparr>)"

text \<open>The mass of a body is the mass of the shapes on it.\<close>

definition body_mass :: "shape list \<Rightarrow> nat \<Rightarrow> real" where
  "body_mass shs a = sum_list (map mass (filter (\<lambda>s. shape_body s = a) shs))"

text \<open>A new space has no gravity and no damping, and the class sets neither.\<close>

definition space_gravity :: vec where "space_gravity = (0, 0)"
definition space_damping :: real where "space_damping = 1"

subsection \<open>Callbacks\<close>

definition marble_collision :: "'h world \<Rightarrow> shape \<times> shape \<Rightarrow> 'h world" where
  "marble_collision self arbiter =
    self\<lparr>events := (events self)\<lparr>collisions := collisions (events self) @
      [\<lparr>ev_objects = (name (objs self (shape_body (fst arbiter))),
                      name (objs self (shape_body (snd arbiter)))),
        ev_step = step self\<rparr>]\<rparr>\<rparr>"

definition wall_collision :: "'h world \<Rightarrow> shape \<times> shape \<Rightarrow> 'h world" where
  "wall_collision self arbiter =
    self\<lparr>events := (events self)\<lparr>wall_bounces := wall_bounces (events self) @
      [\<lparr>ev_objects = (name (objs self (shape_body (fst arbiter))),
                      name (objs self (shape_body (snd arbiter)))),
        ev_step = step self\<rparr>]\<rparr>\<rparr>"

text \<open>
  The handler registered for (dynamic, dynamic) is \<open>marble_collision\<close>, the one for
  (dynamic, static) is \<open>wall_collision\<close>; the engine hands the handler the two shapes in
  the order of the handler's types. No handler is registered for two static shapes.
\<close>

definition begin_contact :: "shape \<times> shape \<Rightarrow> 'h world \<Rightarrow> 'h world" where
  "begin_contact arb self =
    (let t1 = collision_type (fst arb); t2 = collision_type (snd arb)
     in if t1 = collision_types_dynamic \<and> t2 = collision_types_dynamic
          then marble_collision self arb
        else if t1 = collision_types_dynamic \<and> t2 = collision_types_static
          then wall_collision self arb
        else if t1 = collision_types_static \<and> t2 = collision_types_dynamic
          then wall_collision self (snd arb, fst arb)
        else self)"

text \<open>
  \<open>delayed_velocity\<close>, the closure body. \<open>sigma\<close> is \<open>self.velocity_noise\<close> as read when
  the branch runs: an attribute of the class, not of the instance. \<open>self_step\<close> is
  \<open>self.step\<close>, \<open>m\<close> the body's mass. The two samples are drawn left to right.
\<close>

definition delayed_velocity ::
  "(real \<Rightarrow> real \<Rightarrow> 'r \<Rightarrow> real \<times> 'r) \<Rightarrow> real \<Rightarrow> int \<Rightarrow> real \<Rightarrow> vec \<Rightarrow> int option \<Rightarrow> int option
     \<Rightarrow> body \<times> 'r \<Rightarrow> vec \<Rightarrow> real \<Rightarrow> real \<Rightarrow> body \<times> 'r" where
  "delayed_velocity gs sigma self_step m vel delay noisy st gravity damping dt =
    (let b = update_velocity (fst st) gravity damping dt;
         b = (if Some self_step = delay
              then apply_impulse_at_local_point b m (fst vel * speed, snd vel * speed)
              else b)
     in if Some self_step = noisy
        then (let s1 = gs 1 sigma (snd st); s2 = gs 1 sigma (snd s1)
              in (b\<lparr>velocity := (fst (velocity b) * fst s1, snd (velocity b) * fst s2)\<rparr>,
                  snd s2))
        else (b, snd st))"

definition call_velocity_func ::
  "('h, 'r) platform \<Rightarrow> real \<Rightarrow> real \<Rightarrow> nat \<Rightarrow> 'h world \<times> 'r \<Rightarrow> 'h world \<times> 'r" where
  "call_velocity_func E sigma dt a st =
    (let self = fst st; ob = objs self a;
         res = (case velocity_func ob of
                  update_velocity_default \<Rightarrow>
                    (update_velocity (body ob) space_gravity space_damping dt, snd st)
                | delayed_velocity_closure vel delay noisy \<Rightarrow>
                    delayed_velocity (gauss E) sigma (step self)
                      (body_mass (space_shapes self) a) vel delay noisy (body ob, snd st)
                      space_gravity space_damping dt)
     in (self\<lparr>objs := (objs self)(a := ob\<lparr>body := fst res\<rparr>)\<rparr>, snd res))"

definition set_bodies :: "(nat \<Rightarrow> body_obj) \<Rightarrow> (nat \<Rightarrow> body) \<Rightarrow> nat \<Rightarrow> body_obj" where
  "set_bodies os k = (\<lambda>a. (os a)\<lparr>body := k a\<rparr>)"

text \<open>\<open>self.space.step(dt)\<close>.\<close>

definition space_step ::
  "('h, 'r) platform \<Rightarrow> real \<Rightarrow> real \<Rightarrow> 'h world \<times> 'r \<Rightarrow> 'h world \<times> 'r" where
  "space_step E sigma dt st =
    (let self = fst st;
         c = collide E dt (space_bodies self) (space_shapes self) (space_hidden self)
               (\<lambda>a. body (objs self a));
         self = self\<lparr>space_hidden := fst (fst c), objs := set_bodies (objs self) (snd (fst c))\<rparr>;
         self = fold begin_contact (snd c) self;
         st = fold (call_velocity_func E sigma dt) (space_bodies self) (self, snd st);
         self = fst st;
         s = solve E dt (space_bodies self) (space_shapes self) (space_hidden self)
               (\<lambda>a. body (objs self a))
     in (self\<lparr>space_hidden := fst s, objs := set_bodies (objs self) (snd s)\<rparr>, snd st))"

subsection \<open>World simulation\<close>

text \<open>
  \<open>simulate\<close> without animation (\<open>animate = False\<close>, as \<open>run_trial\<close> calls it by default);
  drawing reads the state and changes none of it. \<open>paths\<close> is the local dictionary of the
  recorded trajectories.
\<close>

record path =
  path_position :: "vec list"
  path_velocity :: "vec list"

type_synonym paths = "string \<rightharpoonup> path"

definition new_paths :: "string list \<Rightarrow> paths" where
  "new_paths prb = fold (\<lambda>bname p. p(bname \<mapsto> \<lparr>path_position = [], path_velocity = []\<rparr>))
                     prb Map.empty"

definition init_outcome_dists :: "'h world \<Rightarrow> 'h world" where
  "init_outcome_dists self =
    self\<lparr>events := (events self)\<lparr>outcome_dists :=
      fold (\<lambda>bname od. od(bname \<mapsto> full_length\<^sup>2)) (outcome_record_bodies self)
        (outcome_dists (events self))\<rparr>\<rparr>"

fun record_paths :: "'h world \<Rightarrow> string list \<Rightarrow> paths \<Rightarrow> error + paths" where
  "record_paths self [] paths = Inr paths"
| "record_paths self (bname # bs) paths =
    (case paths bname of
       None \<Rightarrow> Inl (KeyError bname)
     | Some p \<Rightarrow>
        (case dict_get (bodies self) bname of
           None \<Rightarrow> Inl (KeyError bname)
         | Some a \<Rightarrow>
            record_paths self bs (paths(bname \<mapsto>
              p\<lparr>path_position := path_position p @ [position (body (objs self a))],
                path_velocity := path_velocity p @ [velocity (body (objs self a))]\<rparr>))))"

fun sample_outcome_dists ::
  "'h world \<Rightarrow> string list \<Rightarrow> (string \<rightharpoonup> real) \<Rightarrow> error + (string \<rightharpoonup> real)" where
  "sample_outcome_dists self [] od = Inr od"
| "sample_outcome_dists self (bname # bs) od =
    (case dict_get (bodies self) bname of
       None \<Rightarrow> Inl (KeyError bname)
     | Some a \<Rightarrow>
        (let d = exit_dist (position (body (objs self a)))
         in case od bname of
              None \<Rightarrow> Inl (KeyError bname)
            | Some m \<Rightarrow> sample_outcome_dists self bs (if d < m then od(bname \<mapsto> d) else od)))"

fun classify_outcomes ::
  "'h world \<Rightarrow> string list \<Rightarrow> (string \<rightharpoonup> bool) \<Rightarrow> error + (string \<rightharpoonup> bool)" where
  "classify_outcomes self [] oc = Inr oc"
| "classify_outcomes self (bname # bs) oc =
    (case dict_get (bodies self) bname of
       None \<Rightarrow> Inl (KeyError bname)
     | Some a \<Rightarrow>
        (if fst (position (body (objs self a))) > - marble_size / 2
         then classify_outcomes self bs (oc(bname \<mapsto> False))
         else classify_outcomes self bs (oc(bname \<mapsto> True))))"

text \<open>One pass through the body of the \<open>while\<close> loop, \<open>self.step += 1\<close> included.\<close>

definition iteration ::
  "('h, 'r) platform \<Rightarrow> real \<Rightarrow> 'h world \<times> paths \<times> 'r \<Rightarrow> error + 'h world \<times> paths \<times> 'r" where
  "iteration E sigma st =
    (let self = fst st in
     case record_paths self (path_record_bodies self) (fst (snd st)) of
       Inl e \<Rightarrow> Inl e
     | Inr paths \<Rightarrow>
        (case sample_outcome_dists self (outcome_record_bodies self)
                (outcome_dists (events self)) of
           Inl e \<Rightarrow> Inl e
         | Inr od \<Rightarrow>
            (let self = self\<lparr>events := (events self)\<lparr>outcome_dists := od\<rparr>\<rparr>;
                 s = space_step E sigma step_size (self, snd (snd st));
                 self = fst s
             in Inr (self\<lparr>step := step self + 1\<rparr>, paths, snd s))))"

lemma step_begin_contact [simp]: "step (begin_contact arb self) = step self"
  by (simp add: begin_contact_def marble_collision_def wall_collision_def Let_def)

lemma step_fold_begin_contact [simp]: "step (fold begin_contact arbs self) = step self"
  by (induction arbs arbitrary: self) simp_all

lemma step_call_velocity_func [simp]:
  "step (fst (call_velocity_func E sigma dt a st)) = step (fst st)"
  by (simp add: call_velocity_func_def Let_def)

lemma step_fold_call_velocity_func [simp]:
  "step (fst (fold (call_velocity_func E sigma dt) as st)) = step (fst st)"
  by (induction as arbitrary: st) simp_all

lemma step_space_step [simp]: "step (fst (space_step E sigma dt st)) = step (fst st)"
  by (simp add: space_step_def Let_def)

lemma step_iteration:
  "iteration E sigma st = Inr st' \<Longrightarrow> step (fst st') = step (fst st) + 1"
  by (auto simp: iteration_def Let_def split: sum.splits)

function simulate_loop ::
  "('h, 'r) platform \<Rightarrow> real \<Rightarrow> 'h world \<times> paths \<times> 'r \<Rightarrow> error + 'h world \<times> paths \<times> 'r" where
  "simulate_loop E sigma st =
    (if step (fst st) \<le> step_max
     then (case iteration E sigma st of
             Inl e \<Rightarrow> Inl e
           | Inr st' \<Rightarrow> simulate_loop E sigma st')
     else Inr st)"
  by pat_completeness auto
termination
  by (relation "measure (\<lambda>(E, sigma, st). nat (step_max + 1 - step (fst st)))")
     (auto dest: step_iteration)

declare simulate_loop.simps [simp del]

text \<open>
  \<open>simulate\<close>: the set-up before the loop, the loop, the classification after it. The
  Python returns \<open>(self.events, paths)\<close> and leaves \<open>self\<close> and the generator changed; the
  model returns all three.
\<close>

definition simulate ::
  "('h, 'r) platform \<Rightarrow> real \<Rightarrow> 'h world \<Rightarrow> 'r \<Rightarrow> error + 'h world \<times> paths \<times> 'r" where
  "simulate E sigma self rng =
    (case simulate_loop E sigma
            (init_outcome_dists self, new_paths (path_record_bodies self), rng) of
       Inl e \<Rightarrow> Inl e
     | Inr st \<Rightarrow>
        (let self = fst st in
         case classify_outcomes self (outcome_record_bodies self) (outcome (events self)) of
           Inl e \<Rightarrow> Inl e
         | Inr oc \<Rightarrow> Inr (self\<lparr>events := (events self)\<lparr>outcome := oc\<rparr>\<rparr>, snd st)))"

text \<open>
  \<open>run_trial\<close> of \<open>simulations.py\<close>: construct the world of a trial and simulate it.
\<close>

record trial =
  trial_marbles :: "(string \<times> marble) list"
  trial_extra_walls :: "wall list"
  trial_gate :: bool

definition run_trial ::
  "('h, 'r) platform \<Rightarrow> real \<Rightarrow> trial \<Rightarrow> string list \<Rightarrow> string list \<Rightarrow> 'r
     \<Rightarrow> error + 'h world \<times> paths \<times> 'r" where
  "run_trial E sigma tr orb prb rng =
    (case MarbleWorld (new_space E) (trial_marbles tr) (trial_extra_walls tr) (trial_gate tr)
            prb orb of
       Inl e \<Rightarrow> Inl e
     | Inr w \<Rightarrow> simulate E sigma w rng)"

subsection \<open>What the statements below observe\<close>

text \<open>
  Addresses in use are below the allocation counter. The static and the dynamic bodies of
  a world are read off its space: a static collidable is a shape of collision type
  \<open>static\<close> in the space, seen with its body's name, kind and position.
\<close>

definition world_wf :: "'h world \<Rightarrow> bool" where
  "world_wf w = (list_all (\<lambda>s. shape_body s < n_objs w) (space_shapes w) \<and>
                 list_all (\<lambda>a. a < n_objs w) (space_bodies w) \<and>
                 list_all (\<lambda>e. snd e < n_objs w) (bodies w))"

definition static_entry :: "'h world \<Rightarrow> shape \<Rightarrow> string \<times> body_type \<times> vec \<times> geometry" where
  "static_entry w s = (name (objs w (shape_body s)), body_type (body (objs w (shape_body s))),
      position (body (objs w (shape_body s))), geometry s)"

definition static_bodies :: "'h world \<Rightarrow> (string \<times> body_type \<times> vec \<times> geometry) list" where
  "static_bodies w = map (static_entry w)
      (filter (\<lambda>s. collision_type s = collision_types_static) (space_shapes w))"

definition wall_entry :: "wall \<Rightarrow> string \<times> body_type \<times> vec \<times> geometry" where
  "wall_entry wl = (wall_name wl, STATIC, wall_position wl, Box (wall_length wl) (wall_height wl))"

definition dynamic_bodies :: "'h world \<Rightarrow> (string \<times> body_type \<times> vec) list" where
  "dynamic_bodies w = map (\<lambda>a. (name (objs w a), body_type (body (objs w a)),
      position (body (objs w a)))) (space_bodies w)"

definition marble_entry :: "string \<times> marble \<Rightarrow> string \<times> body_type \<times> vec" where
  "marble_entry e = (fst e, DYNAMIC, marble_position (snd e))"


text \<open>The loop body run \<open>n\<close> times, stopping at the first error.\<close>

fun iterations ::
  "('h, 'r) platform \<Rightarrow> real \<Rightarrow> nat \<Rightarrow> 'h world \<times> paths \<times> 'r \<Rightarrow> error + 'h world \<times> paths \<times> 'r" where
  "iterations E sigma 0 st = Inr st"
| "iterations E sigma (Suc n) st =
    (case iteration E sigma st of Inl e \<Rightarrow> Inl e | Inr st' \<Rightarrow> iterations E sigma n st')"

text \<open>
  What one engine step leaves alone (\<open>same_frame\<close>), and what it does to the event log
  (\<open>events_extend\<close>): it only appends records, all of them stamped with the current step.
\<close>

definition same_frame :: "'h world \<Rightarrow> 'h world \<Rightarrow> bool" where
  "same_frame w w' =
    (bodies w' = bodies w \<and> shapes w' = shapes w \<and>
     path_record_bodies w' = path_record_bodies w \<and>
     outcome_record_bodies w' = outcome_record_bodies w \<and>
     space_bodies w' = space_bodies w \<and> space_shapes w' = space_shapes w \<and>
     n_objs w' = n_objs w \<and> walls w' = walls w \<and>
     (\<lambda>a. name (objs w' a)) = (\<lambda>a. name (objs w a)) \<and>
     (\<lambda>a. velocity_func (objs w' a)) = (\<lambda>a. velocity_func (objs w a)))"

definition events_extend :: "int \<Rightarrow> events \<Rightarrow> events \<Rightarrow> bool" where
  "events_extend n ev ev' =
    (outcome ev' = outcome ev \<and> outcome_dists ev' = outcome_dists ev \<and>
     (\<exists>cs. collisions ev' = collisions ev @ cs \<and> list_all (\<lambda>e. ev_step e = n) cs) \<and>
     (\<exists>ws. wall_bounces ev' = wall_bounces ev @ ws \<and> list_all (\<lambda>e. ev_step e = n) ws))"

text \<open>
  Every tracked name is registered and has its entry in \<open>paths\<close> and \<open>outcome_dists\<close>;
  then no dictionary access of the loop raises.
\<close>

definition tracked_ok :: "'h world \<Rightarrow> paths \<Rightarrow> bool" where
  "tracked_ok w p =
    (list_all (\<lambda>n. dict_get (bodies w) n \<noteq> None \<and> p n \<noteq> None) (path_record_bodies w) \<and>
     list_all (\<lambda>n. dict_get (bodies w) n \<noteq> None \<and> outcome_dists (events w) n \<noteq> None)
       (outcome_record_bodies w))"

text \<open>
  Both logs are in step order, and no record is stamped with a step beyond the current one.
\<close>

definition events_ordered :: "'h world \<Rightarrow> bool" where
  "events_ordered w =
    (sorted (map ev_step (collisions (events w))) \<and>
     sorted (map ev_step (wall_bounces (events w))) \<and>
     list_all (\<lambda>e. ev_step e \<le> step w) (collisions (events w) @ wall_bounces (events w)))"

text \<open>
  A schedule step that no pass of the loop can equal is dropped (\<open>None\<close>): \<open>prune_step\<close>
  on a step, \<open>prune_marble\<close> on a marble's specification, \<open>prune_trial\<close> on a trial,
  \<open>prune_world\<close> on the closures installed in a world, \<open>prune_state\<close> on the state of the
  loop. \<open>outputs\<close> is what \<open>simulate\<close> returns to its caller: the event log and the
  recorded paths, or the error.
\<close>

definition prune_step :: "int option \<Rightarrow> int option" where
  "prune_step s =
    (case s of None \<Rightarrow> None | Some d \<Rightarrow> if 0 \<le> d \<and> d \<le> step_max then Some d else None)"

definition prune_marble :: "marble \<Rightarrow> marble" where
  "prune_marble m = m\<lparr>marble_delay := prune_step (marble_delay m),
                       marble_noisy := prune_step (marble_noisy m)\<rparr>"

fun prune_velocity_func :: "velocity_func \<Rightarrow> velocity_func" where
  "prune_velocity_func update_velocity_default = update_velocity_default"
| "prune_velocity_func (delayed_velocity_closure vel delay noisy) =
     delayed_velocity_closure vel (prune_step delay) (prune_step noisy)"

definition prune_world :: "'h world \<Rightarrow> 'h world" where
  "prune_world w =
    w\<lparr>objs := (\<lambda>a. (objs w a)\<lparr>velocity_func := prune_velocity_func (velocity_func (objs w a))\<rparr>)\<rparr>"

definition prune_state :: "'h world \<times> paths \<times> 'r \<Rightarrow> 'h world \<times> paths \<times> 'r" where
  "prune_state st = (prune_world (fst st), snd st)"

definition prune_trial :: "trial \<Rightarrow> trial" where
  "prune_trial tr = tr\<lparr>trial_marbles := map (\<lambda>e. (fst e, prune_marble (snd e))) (trial_marbles tr)\<rparr>"

definition outputs :: "error + 'h world \<times> paths \<times> 'r \<Rightarrow> error + events \<times> paths" where
  "outputs r = (case r of Inl e \<Rightarrow> Inl e | Inr res \<Rightarrow> Inr (events (fst res), fst (snd res)))"



text \<open>
  The body at address \<open>a\<close> is a marble as \<open>add_marble\<close> makes it: it carries the closure,
  it was added to the space once, and the shapes on it weigh 1.
\<close>

definition marble_at :: "'h world \<Rightarrow> nat \<Rightarrow> vec \<Rightarrow> int option \<Rightarrow> int option \<Rightarrow> bool" where
  "marble_at w a vel delay noisy =
    (velocity_func (objs w a) = delayed_velocity_closure vel delay noisy \<and>
     count_list (space_bodies w) a = 1 \<and>
     body_mass (space_shapes w) a = 1)"

text \<open>
  The marble \<open>m\<close> registered under \<open>nm\<close> is the body at address \<open>a\<close>, at rest and
  unturned.
\<close>

definition is_marble :: "'h world \<Rightarrow> string \<Rightarrow> marble \<Rightarrow> nat \<Rightarrow> bool" where
  "is_marble w nm m a =
    (dict_get (bodies w) nm = Some a \<and> a < n_objs w \<and>
     marble_at w a (marble_velocity m) (marble_delay m) (marble_noisy m) \<and>
     velocity (body (objs w a)) = (0, 0) \<and> angle (body (objs w a)) = 0)"


subsection \<open>Example inputs\<close>

text \<open>
  An extra wall as the trials of the repository use it; a second wall named \<open>top_wall\<close>
  with a negative length and no height; marbles with a launch and a noise step at 0, with
  both steps outside the horizon, and with a launch at step 5 and no noise.
\<close>

definition obstacle :: wall where
  "obstacle = \<lparr>wall_name = ''obstacle'', wall_position = (595, 155), wall_length = 410,
     wall_height = 20, wall_color = ''black''\<rparr>"


definition marble_A :: marble where
  "marble_A = \<lparr>marble_position = (400, 300), marble_velocity = (-1, 0),
      marble_delay = Some 0, marble_noisy = Some 0\<rparr>"

definition marble_B :: marble where
  "marble_B = \<lparr>marble_position = (400, 300), marble_velocity = (-1, 0),
      marble_delay = Some (- 1), marble_noisy = Some 751\<rparr>"


definition trial_A :: trial where
  "trial_A = \<lparr>trial_marbles = [(''A'', marble_A)], trial_extra_walls = [], trial_gate = False\<rparr>"

text \<open>
  An engine that moves nothing, finds no contact, and counts its own steps; its random
  source returns the mean.
\<close>

definition counting_engine :: "(nat, unit) platform" where
  "counting_engine =
    \<lparr>new_space = 0,
     collide = (\<lambda>dt bs shs h k. ((h + 1, k), [])),
     solve = (\<lambda>dt bs shs h k. (h, k)),
     gauss = (\<lambda>mu sigma r. (mu, r))\<rparr>"


section \<open>Construction\<close>

lemma set_dict_set: "set (dict_set d k v) \<subseteq> insert (k, v) (set d)"
  by (induction d) (auto split: if_splits)

lemma map_static_entry_cong:
  assumes "list_all (\<lambda>s. shape_body s < n_objs w) ss"
    and "\<And>a. a < n_objs w \<Longrightarrow> objs w' a = objs w a"
  shows "map (static_entry w') ss = map (static_entry w) ss"
  using assms by (induction ss) (simp_all add: static_entry_def)

lemma add_wall_wf: "world_wf w \<Longrightarrow> world_wf (fst (add_wall w p l h n))"
  by (auto simp: world_wf_def add_wall_def Let_def list_all_iff)

lemma add_marble_wf: "world_wf w \<Longrightarrow> world_wf (fst (add_marble w p v n d z))"
  using set_dict_set [of "bodies w" n "n_objs w"]
  by (fastforce simp: world_wf_def add_marble_def Let_def list_all_iff less_Suc_eq)

lemma add_wall_static:
  assumes "world_wf w"
  shows "static_bodies (fst (add_wall w p l h n)) = static_bodies w @ [(n, STATIC, p, Box l h)]"
proof -
  let ?w' = "fst (add_wall w p l h n)"
  have old: "\<And>a. a < n_objs w \<Longrightarrow> objs ?w' a = objs w a"
    by (simp add: add_wall_def Let_def)
  have wf: "list_all (\<lambda>s. shape_body s < n_objs w)
      (filter (\<lambda>s. collision_type s = collision_types_static) (space_shapes w))"
    using assms by (simp add: world_wf_def list_all_iff)
  have "map (static_entry ?w') (filter (\<lambda>s. collision_type s = collision_types_static) (space_shapes w))
      = static_bodies w"
    unfolding static_bodies_def by (rule map_static_entry_cong [OF wf old])
  then show ?thesis
    by (simp add: static_bodies_def) (simp add: add_wall_def Let_def static_entry_def)
qed

lemma add_marble_static:
  assumes "world_wf w"
  shows "static_bodies (fst (add_marble w p v n d z)) = static_bodies w"
proof -
  let ?w' = "fst (add_marble w p v n d z)"
  have old: "\<And>a. a < n_objs w \<Longrightarrow> objs ?w' a = objs w a"
    by (simp add: add_marble_def Let_def)
  have wf: "list_all (\<lambda>s. shape_body s < n_objs w)
      (filter (\<lambda>s. collision_type s = collision_types_static) (space_shapes w))"
    using assms by (simp add: world_wf_def list_all_iff)
  have "map (static_entry ?w') (filter (\<lambda>s. collision_type s = collision_types_static) (space_shapes w))
      = static_bodies w"
    unfolding static_bodies_def by (rule map_static_entry_cong [OF wf old])
  then show ?thesis
    by (simp add: static_bodies_def)
       (simp add: add_marble_def Let_def collision_types_static_def collision_types_dynamic_def)
qed

lemma add_wall_dynamic:
  assumes "world_wf w"
  shows "dynamic_bodies (fst (add_wall w p l h n)) = dynamic_bodies w"
  using assms by (auto simp: dynamic_bodies_def world_wf_def add_wall_def Let_def list_all_iff)

lemma add_marble_dynamic:
  assumes "world_wf w"
  shows "dynamic_bodies (fst (add_marble w p v n d z)) = dynamic_bodies w @ [(n, DYNAMIC, p)]"
  using assms by (auto simp: dynamic_bodies_def world_wf_def add_marble_def Let_def list_all_iff)

lemma add_walls_bodies:
  "world_wf w \<Longrightarrow> world_wf (add_walls ws w) \<and>
   dynamic_bodies (add_walls ws w) = dynamic_bodies w \<and>
   static_bodies (add_walls ws w) =
     static_bodies w @ map wall_entry (filter (\<lambda>wl. wall_name wl \<noteq> ''exit'') ws)"
proof (induction ws arbitrary: w)
  case Nil
  then show ?case by (simp add: add_walls_def)
next
  case (Cons wl ws)
  show ?case
  proof (cases "wall_name wl = ''exit''")
    case True
    with Cons show ?thesis by (simp add: add_walls_def)
  next
    case False
    let ?w1 = "fst (add_wall w (wall_position wl) (wall_length wl) (wall_height wl) (wall_name wl))"
    have wf1: "world_wf ?w1" using Cons.prems by (rule add_wall_wf)
    have eq: "add_walls (wl # ws) w = add_walls ws ?w1"
      using False by (simp add: add_walls_def)
    from Cons.IH [OF wf1] add_wall_static [OF Cons.prems] add_wall_dynamic [OF Cons.prems] False
    show ?thesis by (simp add: eq wall_entry_def)
  qed
qed

lemma add_marbles_bodies:
  "world_wf w \<Longrightarrow> world_wf (add_marbles ms w) \<and>
   static_bodies (add_marbles ms w) = static_bodies w \<and>
   dynamic_bodies (add_marbles ms w) = dynamic_bodies w @ map marble_entry ms"
proof (induction ms arbitrary: w)
  case Nil
  then show ?case by (simp add: add_marbles_def)
next
  case (Cons e ms)
  obtain n m where e: "e = (n, m)" by (cases e)
  let ?w1 = "fst (add_marble w (marble_position m) (marble_velocity m) n (marble_delay m)
                     (marble_noisy m))"
  have wf1: "world_wf ?w1" using Cons.prems by (rule add_marble_wf)
  have eq: "add_marbles ((n, m) # ms) w = add_marbles ms ?w1"
    by (simp add: add_marbles_def)
  from Cons.IH [OF wf1] add_marble_static [OF Cons.prems] add_marble_dynamic [OF Cons.prems]
  show ?case unfolding e by (simp add: eq marble_entry_def)
qed

lemma init_bodies:
  "world_wf (MarbleWorld_init h0 marbles extra_walls gate prb orb) \<and>
   static_bodies (MarbleWorld_init h0 marbles extra_walls gate prb orb) =
     map wall_entry (filter (\<lambda>wl. wall_name wl \<noteq> ''exit'') (default_walls @ extra_walls)) \<and>
   dynamic_bodies (MarbleWorld_init h0 marbles extra_walls gate prb orb) = map marble_entry marbles"
proof -
  let ?w0 = "\<lparr>step = 0, space_hidden = h0, space_bodies = [], space_shapes = [],
                 objs = (\<lambda>a. empty_body_obj), n_objs = 0,
                 events = \<lparr>collisions = [], wall_bounces = [], outcome = Map.empty,
                           outcome_dists = Map.empty\<rparr>,
                 bodies = [], shapes = [],
                 path_record_bodies = prb, outcome_record_bodies = orb,
                 walls = default_walls @ extra_walls\<rparr>"
  have wf0: "world_wf ?w0" by (simp add: world_wf_def)
  have s0: "static_bodies ?w0 = []" "dynamic_bodies ?w0 = []"
    by (simp_all add: static_bodies_def dynamic_bodies_def)
  note w = add_walls_bodies [OF wf0, of "default_walls @ extra_walls"]
  note m = add_marbles_bodies [of "add_walls (default_walls @ extra_walls) ?w0" marbles]
  from w m s0 show ?thesis
    by (simp add: MarbleWorld_init_def Let_def)
qed


lemma dict_get_dict_set: "dict_get (dict_set d k v) k = Some v"
  by (induction d) auto

lemma keys_dict_set: "dict_get d k \<noteq> None \<Longrightarrow> map fst (dict_set d k v) = map fst d"
  by (induction d) auto

lemma walls_add_walls: "walls (add_walls ws w) = walls w"
  by (induction ws arbitrary: w) (simp_all add: add_walls_def add_wall_def Let_def)

lemma walls_add_marbles: "walls (add_marbles ms w) = walls w"
  by (induction ms arbitrary: w) (simp_all add: add_marbles_def add_marble_def Let_def split_def)




lemma init_walls: "walls (MarbleWorld_init h0 marbles extra_walls gate prb orb) = default_walls @ extra_walls"
  by (simp add: MarbleWorld_init_def Let_def walls_add_marbles walls_add_walls)

lemmas construction_defs = MarbleWorld_init_def add_walls_def add_marbles_def add_wall_def
  add_marble_def Let_def default_walls_def collision_types_static_def
  collision_types_dynamic_def

text \<open>
  Claim C8. For every world constructed from the default walls plus any list of extra walls,
  the static collidable bodies of the space are exactly the walls of the combined list whose
  name is not \<open>exit\<close>, in order, each as a static box at the wall's position; no static
  collidable is named \<open>exit\<close>. The exit stays in the world's wall list, and its position is
  the point that \<open>exit_dist\<close> measures from.
\<close>

theorem exit_is_never_a_collidable_body:
  "static_bodies (MarbleWorld_init h0 marbles extra_walls gate prb orb) =
     map wall_entry (filter (\<lambda>wl. wall_name wl \<noteq> ''exit'') (default_walls @ extra_walls)) \<and>
   ''exit'' \<notin> fst ` set (static_bodies (MarbleWorld_init h0 marbles extra_walls gate prb orb)) \<and>
   walls (MarbleWorld_init h0 marbles extra_walls gate prb orb) = default_walls @ extra_walls \<and>
   map wall_position (filter (\<lambda>wl. wall_name wl = ''exit'') default_walls) = [exit_position]"
proof -
  have a: "static_bodies (MarbleWorld_init h0 marbles extra_walls gate prb orb) =
     map wall_entry (filter (\<lambda>wl. wall_name wl \<noteq> ''exit'') (default_walls @ extra_walls))"
    using init_bodies [of h0 marbles extra_walls gate prb orb] by simp
  have b: "''exit'' \<notin> fst ` set (map wall_entry (filter (\<lambda>wl. wall_name wl \<noteq> ''exit'')
              (default_walls @ extra_walls)))"
    by (auto simp: wall_entry_def)
  have c: "map wall_position (filter (\<lambda>wl. wall_name wl = ''exit'') default_walls) = [exit_position]"
    by (simp add: default_walls_def)
  from b show ?thesis by (simp add: a c init_walls)
qed

theorem exit_is_never_a_collidable_body_witness:
  "static_bodies (MarbleWorld_init () [] [obstacle, obstacle\<lparr>wall_name := ''exit''\<rparr>] False [] []) =
     [(''top_wall'', STATIC, (400, 590), Box 800 20),
      (''bottom_wall'', STATIC, (400, 10), Box 800 20),
      (''top_left_wall'', STATIC, (10, 500), Box 20 200),
      (''bottom_left_wall'', STATIC, (10, 100), Box 20 200),
      (''obstacle'', STATIC, (595, 155), Box 410 20)]"
  using exit_is_never_a_collidable_body [of "()" "[]" "[obstacle, obstacle\<lparr>wall_name := ''exit''\<rparr>]" False "[]" "[]"]
  by (simp add: wall_entry_def default_walls_def obstacle_def full_length_def full_height_def
        wall_thickness_def exit_portion_def exit_position_def)

text \<open>
  Claim C10. Adding a marble under a name that is already registered goes through: both
  dictionaries now hold the new body and the new shape under that name, at the place the
  name already had; the new body is another object than the old one; and the space holds
  the old body and the old shape as before, with the new ones added after them, so that
  both circles are collidable.
\<close>

theorem add_marble_existing_name:
  assumes "dict_get (bodies self) nm = Some a_old"
    and "dict_get (shapes self) nm = Some sh_old"
    and "a_old < n_objs self"
    and "a_old \<in> set (space_bodies self)"
    and "sh_old \<in> set (space_shapes self)"
  shows "dict_get (bodies (fst (add_marble self pos vel nm delay noisy))) nm
           = Some (fst (snd (add_marble self pos vel nm delay noisy))) \<and>
         dict_get (shapes (fst (add_marble self pos vel nm delay noisy))) nm
           = Some (snd (snd (add_marble self pos vel nm delay noisy))) \<and>
         fst (snd (add_marble self pos vel nm delay noisy)) \<noteq> a_old \<and>
         shape_body (snd (snd (add_marble self pos vel nm delay noisy)))
           = fst (snd (add_marble self pos vel nm delay noisy)) \<and>
         map fst (bodies (fst (add_marble self pos vel nm delay noisy))) = map fst (bodies self) \<and>
         space_bodies (fst (add_marble self pos vel nm delay noisy))
           = space_bodies self @ [fst (snd (add_marble self pos vel nm delay noisy))] \<and>
         space_shapes (fst (add_marble self pos vel nm delay noisy))
           = space_shapes self @ [snd (snd (add_marble self pos vel nm delay noisy))] \<and>
         a_old \<in> set (space_bodies (fst (add_marble self pos vel nm delay noisy))) \<and>
         sh_old \<in> set (space_shapes (fst (add_marble self pos vel nm delay noisy))) \<and>
         objs (fst (add_marble self pos vel nm delay noisy)) a_old = objs self a_old \<and>
         collision_type (snd (snd (add_marble self pos vel nm delay noisy)))
           = collision_types_dynamic"
  using assms
  by (simp add: add_marble_def Let_def dict_get_dict_set keys_dict_set)

theorem add_marble_existing_name_witness:
  "dict_get (bodies (MarbleWorld_init () [(''A'', marble_A)] [] False [] [])) ''A'' = Some 4 \<and>
   dict_get (bodies (fst (add_marble (MarbleWorld_init () [(''A'', marble_A)] [] False [] [])
      (100, 100) (1, 0) ''A'' None None))) ''A'' = Some 5 \<and>
   space_bodies (fst (add_marble (MarbleWorld_init () [(''A'', marble_A)] [] False [] [])
      (100, 100) (1, 0) ''A'' None None)) = [4, 5]"
proof -
  let ?w = "MarbleWorld_init () [(''A'', marble_A)] [] False [] []"
  let ?sh = "\<lparr>shape_body = 4, geometry = Circle (marble_size / 2), elasticity = 1,
               friction = 0, mass = 1, collision_type = collision_types_dynamic\<rparr>"
  have h1: "dict_get (bodies ?w) ''A'' = Some 4"
    by (simp add: construction_defs)
  have h2: "dict_get (shapes ?w) ''A'' = Some ?sh"
    by (simp add: construction_defs)
  have h3: "4 < n_objs ?w"
    by (simp add: construction_defs)
  have h4: "4 \<in> set (space_bodies ?w)"
    by (simp add: construction_defs)
  have h5: "?sh \<in> set (space_shapes ?w)"
    by (simp add: construction_defs)
  have n: "n_objs ?w = 5" "space_bodies ?w = [4]"
    by (simp_all add: construction_defs)
  from add_marble_existing_name [OF h1 h2 h3 h4 h5, of "(100, 100)" "(1, 0)" None None] h1 n
  show ?thesis by (simp add: add_marble_def Let_def)
qed




section \<open>Simulation\<close>

subsection \<open>What a pass through the loop leaves alone\<close>

lemma same_frame_refl [simp]: "same_frame w w"
  by (simp add: same_frame_def)

lemma same_frame_trans: "same_frame w w' \<Longrightarrow> same_frame w' w'' \<Longrightarrow> same_frame w w''"
  by (simp add: same_frame_def)

lemma same_frame_begin_contact: "same_frame w (begin_contact arb w)"
  by (simp add: same_frame_def begin_contact_def marble_collision_def wall_collision_def Let_def)

lemma same_frame_fold_begin_contact: "same_frame w (fold begin_contact arbs w)"
proof (induction arbs arbitrary: w)
  case Nil
  show ?case by simp
next
  case (Cons arb arbs)
  from same_frame_begin_contact [of w arb] Cons [of "begin_contact arb w"]
  show ?case by (auto intro: same_frame_trans)
qed

lemma same_frame_call_velocity_func: "same_frame (fst st) (fst (call_velocity_func E sigma dt a st))"
  by (auto simp: same_frame_def call_velocity_func_def Let_def fun_eq_iff)

lemma same_frame_fold_call_velocity_func:
  "same_frame (fst st) (fst (fold (call_velocity_func E sigma dt) as st))"
proof (induction as arbitrary: st)
  case Nil
  show ?case by simp
next
  case (Cons a as)
  from same_frame_call_velocity_func [of st E sigma dt a]
    Cons [of "call_velocity_func E sigma dt a st"]
  show ?case by (auto intro: same_frame_trans)
qed

lemma same_frame_set_bodies:
  "same_frame w (w\<lparr>space_hidden := h, objs := set_bodies (objs w) k\<rparr>)"
  by (simp add: same_frame_def set_bodies_def)

lemma same_frame_space_step: "same_frame (fst st) (fst (space_step E sigma dt st))"
proof -
  let ?w = "fst st"
  let ?c = "collide E dt (space_bodies ?w) (space_shapes ?w) (space_hidden ?w)
               (\<lambda>a. body (objs ?w a))"
  let ?w1 = "?w\<lparr>space_hidden := fst (fst ?c), objs := set_bodies (objs ?w) (snd (fst ?c))\<rparr>"
  let ?w2 = "fold begin_contact (snd ?c) ?w1"
  let ?st3 = "fold (call_velocity_func E sigma dt) (space_bodies ?w2) (?w2, snd st)"
  let ?w3 = "fst ?st3"
  let ?s = "solve E dt (space_bodies ?w3) (space_shapes ?w3) (space_hidden ?w3)
               (\<lambda>a. body (objs ?w3 a))"
  let ?w4 = "?w3\<lparr>space_hidden := fst ?s, objs := set_bodies (objs ?w3) (snd ?s)\<rparr>"
  have 1: "same_frame ?w ?w1" by (rule same_frame_set_bodies)
  have 2: "same_frame ?w1 ?w2" by (rule same_frame_fold_begin_contact)
  have 3: "same_frame ?w2 ?w3"
    using same_frame_fold_call_velocity_func [of "(?w2, snd st)" E sigma dt "space_bodies ?w2"]
    by simp
  have 4: "same_frame ?w3 ?w4" by (rule same_frame_set_bodies)
  have "fst (space_step E sigma dt st) = ?w4"
    by (simp add: space_step_def Let_def)
  then show ?thesis
    using same_frame_trans [OF same_frame_trans [OF same_frame_trans [OF 1 2] 3] 4] by simp
qed

lemma same_frame_iteration:
  "iteration E sigma st = Inr st' \<Longrightarrow> same_frame (fst st) (fst st')"
proof -
  assume a: "iteration E sigma st = Inr st'"
  then obtain p od where
    st': "fst st' = (fst (space_step E sigma step_size
             ((fst st)\<lparr>events := (events (fst st))\<lparr>outcome_dists := od\<rparr>\<rparr>, snd (snd st))))
           \<lparr>step := step (fst (space_step E sigma step_size
             ((fst st)\<lparr>events := (events (fst st))\<lparr>outcome_dists := od\<rparr>\<rparr>, snd (snd st)))) + 1\<rparr>"
    by (auto simp: iteration_def Let_def split: sum.splits)
  let ?wz = "(fst st)\<lparr>events := (events (fst st))\<lparr>outcome_dists := od\<rparr>\<rparr>"
  have "same_frame (fst st) ?wz" by (simp add: same_frame_def)
  moreover have "same_frame ?wz (fst (space_step E sigma step_size (?wz, snd (snd st))))"
    using same_frame_space_step [of "(?wz, snd (snd st))" E sigma step_size] by simp
  ultimately have "same_frame (fst st) (fst (space_step E sigma step_size (?wz, snd (snd st))))"
    by (rule same_frame_trans)
  then show ?thesis by (simp add: st' same_frame_def)
qed

lemma same_frame_iterations:
  "iterations E sigma n st = Inr st' \<Longrightarrow> same_frame (fst st) (fst st')"
proof (induction n arbitrary: st)
  case 0
  then show ?case by simp
next
  case (Suc n)
  then show ?case
    by (auto split: sum.splits dest!: same_frame_iteration intro: same_frame_trans)
qed

lemma step_iterations:
  "iterations E sigma n st = Inr st' \<Longrightarrow> step (fst st') = step (fst st) + int n"
proof (induction n arbitrary: st)
  case 0
  then show ?case by simp
next
  case (Suc n)
  then show ?case
    by (auto split: sum.splits dest!: step_iteration)
qed

lemma simulate_loop_iterations:
  "simulate_loop E sigma st = iterations E sigma (nat (step_max + 1 - step (fst st))) st"
proof (induction E sigma st rule: simulate_loop.induct)
  case (1 E sigma st)
  show ?case
  proof (cases "step (fst st) \<le> step_max")
    case False
    then show ?thesis by (simp add: simulate_loop.simps [of E sigma st])
  next
    case True
    then have n: "nat (step_max + 1 - step (fst st)) = Suc (nat (step_max - step (fst st)))"
      by simp
    show ?thesis
    proof (cases "iteration E sigma st")
      case (Inl e)
      with True show ?thesis by (simp add: simulate_loop.simps [of E sigma st] n)
    next
      case (Inr st')
      from step_iteration [OF Inr]
      have "nat (step_max + 1 - step (fst st')) = nat (step_max - step (fst st))" by simp
      with "1.IH" [OF True Inr] True Inr show ?thesis
        by (simp add: simulate_loop.simps [of E sigma st] n)
    qed
  qed
qed



subsection \<open>The event log\<close>

lemma events_extend_refl [simp]: "events_extend n ev ev"
  by (simp add: events_extend_def)

lemma events_extend_trans:
  "events_extend n ev ev' \<Longrightarrow> events_extend n ev' ev'' \<Longrightarrow> events_extend n ev ev''"
  by (auto simp: events_extend_def)

lemma events_begin_contact:
  "events_extend (step w) (events w) (events (begin_contact arb w))"
  by (simp add: events_extend_def begin_contact_def marble_collision_def wall_collision_def Let_def)

lemma events_fold_begin_contact:
  "events_extend (step w) (events w) (events (fold begin_contact arbs w))"
proof (induction arbs arbitrary: w)
  case Nil
  show ?case by simp
next
  case (Cons arb arbs)
  from events_begin_contact [of w arb] Cons [of "begin_contact arb w"]
  show ?case by (auto intro: events_extend_trans)
qed

lemma events_call_velocity_func [simp]:
  "events (fst (call_velocity_func E sigma dt a st)) = events (fst st)"
  by (simp add: call_velocity_func_def Let_def)

lemma events_fold_call_velocity_func [simp]:
  "events (fst (fold (call_velocity_func E sigma dt) as st)) = events (fst st)"
  by (induction as arbitrary: st) simp_all

lemma events_space_step:
  "events_extend (step (fst st)) (events (fst st)) (events (fst (space_step E sigma dt st)))"
proof -
  let ?w = "fst st"
  let ?c = "collide E dt (space_bodies ?w) (space_shapes ?w) (space_hidden ?w)
               (\<lambda>a. body (objs ?w a))"
  let ?w1 = "?w\<lparr>space_hidden := fst (fst ?c), objs := set_bodies (objs ?w) (snd (fst ?c))\<rparr>"
  have "events (fst (space_step E sigma dt st)) = events (fold begin_contact (snd ?c) ?w1)"
    by (simp add: space_step_def Let_def)
  with events_fold_begin_contact [of ?w1 "snd ?c"] show ?thesis by simp
qed

subsection \<open>The loop raises nothing when the tracked names are registered\<close>

lemma record_paths_total:
  "list_all (\<lambda>n. dict_get (bodies w) n \<noteq> None \<and> p n \<noteq> None) bs \<Longrightarrow>
   \<exists>p'. record_paths w bs p = Inr p' \<and> dom p' = dom p"
proof (induction bs arbitrary: p)
  case Nil
  show ?case by simp
next
  case (Cons b bs)
  from Cons.prems obtain q a where q: "p b = Some q" and a: "dict_get (bodies w) b = Some a"
    by auto
  let ?p1 = "p(b \<mapsto> q\<lparr>path_position := path_position q @ [position (body (objs w a))],
                path_velocity := path_velocity q @ [velocity (body (objs w a))]\<rparr>)"
  have d: "dom ?p1 = dom p" using q by auto
  have "list_all (\<lambda>n. dict_get (bodies w) n \<noteq> None \<and> ?p1 n \<noteq> None) bs"
    using Cons.prems by (auto simp: list_all_iff)
  from Cons.IH [OF this] obtain p' where p': "record_paths w bs ?p1 = Inr p'" "dom p' = dom ?p1"
    by blast
  have "record_paths w (b # bs) p = record_paths w bs ?p1"
    using q a by simp
  with p' d show ?case by simp
qed

lemma sample_outcome_dists_total:
  "list_all (\<lambda>n. dict_get (bodies w) n \<noteq> None \<and> od n \<noteq> None) bs \<Longrightarrow>
   \<exists>od'. sample_outcome_dists w bs od = Inr od' \<and> dom od' = dom od"
proof (induction bs arbitrary: od)
  case Nil
  show ?case by simp
next
  case (Cons b bs)
  from Cons.prems obtain m a where m: "od b = Some m" and a: "dict_get (bodies w) b = Some a"
    by auto
  let ?d = "exit_dist (position (body (objs w a)))"
  let ?od1 = "if ?d < m then od(b \<mapsto> ?d) else od"
  have d: "dom ?od1 = dom od" using m by auto
  have "list_all (\<lambda>n. dict_get (bodies w) n \<noteq> None \<and> ?od1 n \<noteq> None) bs"
    using Cons.prems by (auto simp: list_all_iff)
  from Cons.IH [OF this] obtain od' where
    od': "sample_outcome_dists w bs ?od1 = Inr od'" "dom od' = dom ?od1"
    by blast
  have "sample_outcome_dists w (b # bs) od = sample_outcome_dists w bs ?od1"
    using m a by (simp add: Let_def)
  with od' d show ?case by simp
qed

lemma iteration_total:
  assumes "tracked_ok (fst st) (fst (snd st))"
  shows "\<exists>st'. iteration E sigma st = Inr st' \<and> tracked_ok (fst st') (fst (snd st'))"
proof -
  let ?w = "fst st"
  from assms have 1: "list_all (\<lambda>n. dict_get (bodies ?w) n \<noteq> None \<and> fst (snd st) n \<noteq> None)
      (path_record_bodies ?w)"
    and 2: "list_all (\<lambda>n. dict_get (bodies ?w) n \<noteq> None \<and> outcome_dists (events ?w) n \<noteq> None)
      (outcome_record_bodies ?w)"
    by (simp_all add: tracked_ok_def)
  from record_paths_total [OF 1] obtain p' where
    p': "record_paths ?w (path_record_bodies ?w) (fst (snd st)) = Inr p'" "dom p' = dom (fst (snd st))"
    by blast
  from sample_outcome_dists_total [OF 2] obtain od' where
    od': "sample_outcome_dists ?w (outcome_record_bodies ?w) (outcome_dists (events ?w)) = Inr od'"
      "dom od' = dom (outcome_dists (events ?w))"
    by blast
  let ?wz = "?w\<lparr>events := (events ?w)\<lparr>outcome_dists := od'\<rparr>\<rparr>"
  let ?s = "space_step E sigma step_size (?wz, snd (snd st))"
  let ?st' = "((fst ?s)\<lparr>step := step (fst ?s) + 1\<rparr>, p', snd ?s)"
  have it: "iteration E sigma st = Inr ?st'"
    using p' od' by (simp add: iteration_def Let_def)
  have fr: "same_frame ?w (fst ?st')"
    using same_frame_iteration [OF it] .
  have ev: "outcome_dists (events (fst ?st')) = od'"
    using events_space_step [of "(?wz, snd (snd st))" E sigma step_size]
    by (simp add: events_extend_def)
  have "tracked_ok (fst ?st') (fst (snd ?st'))"
    unfolding tracked_ok_def
  proof
    show "list_all (\<lambda>n. dict_get (bodies (fst ?st')) n \<noteq> None \<and> fst (snd ?st') n \<noteq> None)
            (path_record_bodies (fst ?st'))"
      using 1 fr p'(2) by (auto simp: same_frame_def list_all_iff domIff)
    show "list_all (\<lambda>n. dict_get (bodies (fst ?st')) n \<noteq> None \<and>
              outcome_dists (events (fst ?st')) n \<noteq> None) (outcome_record_bodies (fst ?st'))"
      unfolding ev using 2 fr od'(2) by (auto simp: same_frame_def list_all_iff domIff)
  qed
  with it show ?thesis by blast
qed

lemma iterations_total:
  "tracked_ok (fst st) (fst (snd st)) \<Longrightarrow>
   \<exists>st'. iterations E sigma n st = Inr st' \<and> tracked_ok (fst st') (fst (snd st'))"
proof (induction n arbitrary: st)
  case 0
  then show ?case by simp
next
  case (Suc n)
  from iteration_total [OF Suc.prems, of E sigma] obtain st1 where
    st1: "iteration E sigma st = Inr st1" "tracked_ok (fst st1) (fst (snd st1))" by blast
  from Suc.IH [OF st1(2)] st1(1) show ?case by simp
qed


subsection \<open>Set-up and classification\<close>

lemma fold_upd_const:
  "fold (\<lambda>b m. m(b \<mapsto> v)) bs m0 n = (if n \<in> set bs then Some v else m0 n)"
  by (induction bs arbitrary: m0) auto

lemma new_paths_value:
  "new_paths prb n = (if n \<in> set prb then Some \<lparr>path_position = [], path_velocity = []\<rparr> else None)"
  by (simp add: new_paths_def fold_upd_const)

lemma init_outcome_dists_value:
  "outcome_dists (events (init_outcome_dists w)) n =
     (if n \<in> set (outcome_record_bodies w) then Some (full_length\<^sup>2)
      else outcome_dists (events w) n)"
  by (simp add: init_outcome_dists_def fold_upd_const)

lemma same_frame_init_outcome_dists: "same_frame w (init_outcome_dists w)"
  by (simp add: same_frame_def init_outcome_dists_def)

lemma step_init_outcome_dists [simp]: "step (init_outcome_dists w) = step w"
  by (simp add: init_outcome_dists_def)

lemma tracked_ok_setup:
  assumes "list_all (\<lambda>n. dict_get (bodies w) n \<noteq> None)
             (path_record_bodies w @ outcome_record_bodies w)"
  shows "tracked_ok (init_outcome_dists w) (new_paths (path_record_bodies w))"
  using assms same_frame_init_outcome_dists [of w]
  by (auto simp: tracked_ok_def list_all_iff new_paths_value init_outcome_dists_value
        same_frame_def)

lemma classify_outcomes_value:
  "classify_outcomes w bs oc = Inr oc' \<Longrightarrow>
   (\<forall>n. n \<notin> set bs \<longrightarrow> oc' n = oc n) \<and>
   (\<forall>n \<in> set bs. \<exists>a. dict_get (bodies w) n = Some a \<and>
       oc' n = Some (fst (position (body (objs w a))) \<le> - marble_size / 2))"
proof (induction bs arbitrary: oc)
  case Nil
  then show ?case by simp
next
  case (Cons b bs)
  from Cons.prems obtain a where a: "dict_get (bodies w) b = Some a"
    by (auto split: option.splits)
  let ?v = "fst (position (body (objs w a))) \<le> - marble_size / 2"
  have r: "classify_outcomes w bs (oc(b \<mapsto> ?v)) = Inr oc'"
    using Cons.prems a by (auto split: if_splits)
  note ih = Cons.IH [OF r]
  show ?case
  proof (intro conjI allI ballI impI)
    fix n assume "n \<notin> set (b # bs)"
    with ih show "oc' n = oc n" by auto
  next
    fix n assume n: "n \<in> set (b # bs)"
    show "\<exists>a. dict_get (bodies w) n = Some a \<and>
       oc' n = Some (fst (position (body (objs w a))) \<le> - marble_size / 2)"
    proof (cases "n \<in> set bs")
      case True
      with ih show ?thesis by blast
    next
      case False
      with n have "n = b" by simp
      moreover from ih False have "oc' n = (oc(b \<mapsto> ?v)) n" by blast
      ultimately show ?thesis using a by simp
    qed
  qed
qed

lemma classify_outcomes_total:
  "list_all (\<lambda>n. dict_get (bodies w) n \<noteq> None) bs \<Longrightarrow> \<exists>oc'. classify_outcomes w bs oc = Inr oc'"
  by (induction bs arbitrary: oc) auto

lemma simulate_Inr:
  assumes "simulate E sigma self rng = Inr res"
  shows "\<exists>st oc. simulate_loop E sigma
            (init_outcome_dists self, new_paths (path_record_bodies self), rng) = Inr st \<and>
          classify_outcomes (fst st) (outcome_record_bodies (fst st))
            (outcome (events (fst st))) = Inr oc \<and>
          res = ((fst st)\<lparr>events := (events (fst st))\<lparr>outcome := oc\<rparr>\<rparr>, snd st)"
  using assms by (auto simp: simulate_def Let_def split: sum.splits)

lemma simulate_total:
  assumes "list_all (\<lambda>n. dict_get (bodies self) n \<noteq> None)
             (path_record_bodies self @ outcome_record_bodies self)"
  shows "\<exists>res. simulate E sigma self rng = Inr res"
proof -
  let ?st0 = "(init_outcome_dists self, new_paths (path_record_bodies self), rng)"
  have "tracked_ok (fst ?st0) (fst (snd ?st0))"
    using tracked_ok_setup [OF assms] by simp
  from iterations_total [OF this] obtain st where
    st: "simulate_loop E sigma ?st0 = Inr st" "tracked_ok (fst st) (fst (snd st))"
    unfolding simulate_loop_iterations by blast
  have "list_all (\<lambda>n. dict_get (bodies (fst st)) n \<noteq> None) (outcome_record_bodies (fst st))"
    using st(2) by (auto simp: tracked_ok_def list_all_iff)
  from classify_outcomes_total [OF this] obtain oc where
    "classify_outcomes (fst st) (outcome_record_bodies (fst st)) (outcome (events (fst st))) = Inr oc"
    by blast
  with st(1) show ?thesis by (simp add: simulate_def Let_def)
qed

text \<open>
  Claim C1. When \<open>simulate\<close> returns, the outcome of every outcome-tracked body is
  \<open>True\<close> if the first coordinate of its final position is at most \<open>- marble_size / 2\<close>,
  and \<open>False\<close> otherwise.
\<close>

theorem outcome_classifies_final_position:
  assumes "simulate E sigma self rng = Inr (self', paths, rng')"
    and "bname \<in> set (outcome_record_bodies self)"
  shows "\<exists>a. dict_get (bodies self') bname = Some a \<and>
           outcome (events self') bname =
             Some (fst (position (body (objs self' a))) \<le> - marble_size / 2)"
proof -
  from simulate_Inr [OF assms(1)] obtain st oc where
    loop: "simulate_loop E sigma
            (init_outcome_dists self, new_paths (path_record_bodies self), rng) = Inr st"
    and oc: "classify_outcomes (fst st) (outcome_record_bodies (fst st))
            (outcome (events (fst st))) = Inr oc"
    and res: "(self', paths, rng') = ((fst st)\<lparr>events := (events (fst st))\<lparr>outcome := oc\<rparr>\<rparr>, snd st)"
    by blast
  have "same_frame (init_outcome_dists self) (fst st)"
    using same_frame_iterations [of E sigma _ "(init_outcome_dists self, new_paths (path_record_bodies self), rng)" st]
      loop unfolding simulate_loop_iterations by simp
  with same_frame_init_outcome_dists [of self] have "same_frame self (fst st)"
    by (rule same_frame_trans)
  then have "bname \<in> set (outcome_record_bodies (fst st))"
    using assms(2) by (simp add: same_frame_def)
  with classify_outcomes_value [OF oc] obtain a where
    "dict_get (bodies (fst st)) bname = Some a"
    "oc bname = Some (fst (position (body (objs (fst st) a))) \<le> - marble_size / 2)"
    by blast
  with res show ?thesis by simp
qed


theorem outcome_classifies_final_position_witness:
  "\<exists>self' paths rng'.
     simulate counting_engine 0 (MarbleWorld_init 0 [(''A'', marble_A)] [] False [] [''A'']) ()
       = Inr (self', paths, rng') \<and>
     (\<exists>a. dict_get (bodies self') ''A'' = Some a \<and>
        outcome (events self') ''A'' =
          Some (fst (position (body (objs self' a))) \<le> - marble_size / 2))"
proof -
  let ?w = "MarbleWorld_init (0::nat) [(''A'', marble_A)] [] False [] [''A'']"
  have reg: "list_all (\<lambda>n. dict_get (bodies ?w) n \<noteq> None)
               (path_record_bodies ?w @ outcome_record_bodies ?w)"
    by (simp add: construction_defs)
  have orb: "''A'' \<in> set (outcome_record_bodies ?w)"
    by (simp add: construction_defs)
  from simulate_total [OF reg, of counting_engine 0 "()"] obtain self' paths rng' where
    r: "simulate counting_engine 0 ?w () = Inr (self', paths, rng')"
    by (metis prod_cases3)
  from outcome_classifies_final_position [OF r orb] r show ?thesis by blast
qed

subsection \<open>The running minimum\<close>


lemma iteration_Inr:
  assumes "iteration E sigma st = Inr st'"
  shows "\<exists>p od. record_paths (fst st) (path_record_bodies (fst st)) (fst (snd st)) = Inr p \<and>
      sample_outcome_dists (fst st) (outcome_record_bodies (fst st))
        (outcome_dists (events (fst st))) = Inr od \<and>
      st' = ((fst (space_step E sigma step_size
               ((fst st)\<lparr>events := (events (fst st))\<lparr>outcome_dists := od\<rparr>\<rparr>, snd (snd st))))
              \<lparr>step := step (fst st) + 1\<rparr>, p,
             snd (space_step E sigma step_size
               ((fst st)\<lparr>events := (events (fst st))\<lparr>outcome_dists := od\<rparr>\<rparr>, snd (snd st))))"
  using assms by (auto simp: iteration_def Let_def split: sum.splits)





subsection \<open>Order of the event log\<close>

lemma events_ordered_extend:
  assumes "events_ordered w" and "events_extend (step w) (events w) ev'"
  shows "events_ordered (w\<lparr>events := ev', step := step w + 1\<rparr>)"
proof -
  from assms(2) obtain cs ws where
    cs: "collisions ev' = collisions (events w) @ cs" "list_all (\<lambda>e. ev_step e = step w) cs"
    and ws: "wall_bounces ev' = wall_bounces (events w) @ ws" "list_all (\<lambda>e. ev_step e = step w) ws"
    by (auto simp: events_extend_def)
  from assms(1) have o: "sorted (map ev_step (collisions (events w)))"
      "sorted (map ev_step (wall_bounces (events w)))"
      "\<forall>e \<in> set (collisions (events w)). ev_step e \<le> step w"
      "\<forall>e \<in> set (wall_bounces (events w)). ev_step e \<le> step w"
    by (auto simp: events_ordered_def list_all_iff)
  have a: "sorted (map ev_step cs)" "sorted (map ev_step ws)"
    using cs(2) ws(2) by (auto simp: list_all_iff sorted_iff_nth_mono)
  have "sorted (map ev_step (collisions (events w) @ cs))"
    using o(1,3) a(1) cs(2) by (auto simp: sorted_append list_all_iff)
  moreover have "sorted (map ev_step (wall_bounces (events w) @ ws))"
    using o(2,4) a(2) ws(2) by (auto simp: sorted_append list_all_iff)
  moreover have "list_all (\<lambda>e. ev_step e \<le> step w + 1)
      ((collisions (events w) @ cs) @ (wall_bounces (events w) @ ws))"
    using o(3,4) cs(2) ws(2) by (fastforce simp: list_all_iff)
  ultimately show ?thesis
    by (simp add: events_ordered_def cs(1) ws(1))
qed

lemma events_ordered_iteration:
  assumes "iteration E sigma st = Inr st'" and "events_ordered (fst st)"
  shows "events_ordered (fst st')"
proof -
  from iteration_Inr [OF assms(1)] obtain p od where
    st': "st' = ((fst (space_step E sigma step_size
               ((fst st)\<lparr>events := (events (fst st))\<lparr>outcome_dists := od\<rparr>\<rparr>, snd (snd st))))
              \<lparr>step := step (fst st) + 1\<rparr>, p,
             snd (space_step E sigma step_size
               ((fst st)\<lparr>events := (events (fst st))\<lparr>outcome_dists := od\<rparr>\<rparr>, snd (snd st))))"
    by blast
  let ?wa = "(fst st)\<lparr>events := (events (fst st))\<lparr>outcome_dists := od\<rparr>\<rparr>"
  let ?wb = "fst (space_step E sigma step_size (?wa, snd (snd st)))"
  have oa: "events_ordered ?wa"
    using assms(2) by (simp add: events_ordered_def)
  have ex: "events_extend (step ?wa) (events ?wa) (events ?wb)"
    using events_space_step [of "(?wa, snd (snd st))" E sigma step_size] by simp
  have ob: "events_ordered (?wa\<lparr>events := events ?wb, step := step ?wa + 1\<rparr>)"
    using oa ex by (rule events_ordered_extend)
  have "events_ordered (?wb\<lparr>step := step (fst st) + 1\<rparr>)
          = events_ordered (?wa\<lparr>events := events ?wb, step := step ?wa + 1\<rparr>)"
    by (simp add: events_ordered_def)
  with ob show ?thesis by (simp add: st')
qed

lemma events_ordered_iterations:
  "iterations E sigma n st = Inr st' \<Longrightarrow> events_ordered (fst st) \<Longrightarrow> events_ordered (fst st')"
proof (induction n arbitrary: st)
  case 0
  then show ?case by simp
next
  case (Suc n)
  then show ?case
    by (auto split: sum.splits dest: events_ordered_iteration)
qed

lemma events_ordered_simulate:
  assumes "simulate E sigma self rng = Inr res" and "events_ordered self"
  shows "events_ordered (fst res)"
proof -
  from simulate_Inr [OF assms(1)] obtain st oc where
    loop: "simulate_loop E sigma
            (init_outcome_dists self, new_paths (path_record_bodies self), rng) = Inr st"
    and res: "res = ((fst st)\<lparr>events := (events (fst st))\<lparr>outcome := oc\<rparr>\<rparr>, snd st)"
    by blast
  have "events_ordered (init_outcome_dists self)"
    using assms(2) by (simp add: events_ordered_def init_outcome_dists_def)
  with loop have "events_ordered (fst st)"
    unfolding simulate_loop_iterations
    using events_ordered_iterations [of E sigma _ "(init_outcome_dists self, new_paths (path_record_bodies self), rng)" st]
    by simp
  then show ?thesis by (simp add: res events_ordered_def)
qed

lemma events_add_walls [simp]: "events (add_walls ws w) = events w"
  by (induction ws arbitrary: w) (simp_all add: add_walls_def add_wall_def Let_def)

lemma events_add_marbles [simp]: "events (add_marbles ms w) = events w"
  by (induction ms arbitrary: w) (simp_all add: add_marbles_def add_marble_def Let_def split_def)

lemma step_add_walls [simp]: "step (add_walls ws w) = step w"
  by (induction ws arbitrary: w) (simp_all add: add_walls_def add_wall_def Let_def)

lemma step_add_marbles [simp]: "step (add_marbles ms w) = step w"
  by (induction ms arbitrary: w) (simp_all add: add_marbles_def add_marble_def Let_def split_def)

lemma step_init [simp]: "step (MarbleWorld_init h0 marbles extra_walls gate prb orb) = 0"
  by (simp add: MarbleWorld_init_def Let_def)

lemma events_init:
  "events (MarbleWorld_init h0 marbles extra_walls gate prb orb) =
     \<lparr>collisions = [], wall_bounces = [], outcome = Map.empty, outcome_dists = Map.empty\<rparr>"
  by (simp add: MarbleWorld_init_def Let_def)

lemma events_ordered_init:
  "events_ordered (MarbleWorld_init h0 marbles extra_walls gate prb orb)"
  by (simp add: events_ordered_def events_init)

text \<open>
  Claim C6. In the log that a run returns, the \<open>collisions\<close> and the \<open>wall_bounces\<close> are
  each nondecreasing in their step, from the first entry to the last.
\<close>

theorem events_are_in_step_order:
  assumes "run_trial E sigma tr orb prb rng = Inr (self', paths, rng')"
  shows "sorted (map ev_step (collisions (events self'))) \<and>
         sorted (map ev_step (wall_bounces (events self')))"
proof -
  from assms have "simulate E sigma
      (MarbleWorld_init (new_space E) (trial_marbles tr) (trial_extra_walls tr) (trial_gate tr)
         prb orb) rng = Inr (self', paths, rng')"
    by (simp add: run_trial_def MarbleWorld_def)
  from events_ordered_simulate [OF this events_ordered_init] show ?thesis
    by (simp add: events_ordered_def)
qed


theorem events_are_in_step_order_witness:
  "\<exists>self' paths rng'.
     run_trial counting_engine 0 trial_A [''A''] [''A''] () = Inr (self', paths, rng') \<and>
     sorted (map ev_step (collisions (events self'))) \<and>
     sorted (map ev_step (wall_bounces (events self')))"
proof -
  let ?w = "MarbleWorld_init (0::nat) [(''A'', marble_A)] [] False [''A''] [''A'']"
  have reg: "list_all (\<lambda>n. dict_get (bodies ?w) n \<noteq> None)
               (path_record_bodies ?w @ outcome_record_bodies ?w)"
    by (simp add: construction_defs)
  from simulate_total [OF reg, of counting_engine 0 "()"] obtain self' paths rng' where
    "simulate counting_engine 0 ?w () = Inr (self', paths, rng')"
    by (metis prod_cases3)
  then have r: "run_trial counting_engine 0 trial_A [''A''] [''A''] () = Inr (self', paths, rng')"
    by (simp add: run_trial_def MarbleWorld_def trial_A_def counting_engine_def)
  from events_are_in_step_order [OF r] r show ?thesis by blast
qed

subsection \<open>Number of passes\<close>

lemma step_max_value: "step_max = 750"
  by (simp add: step_max_def time_max_def step_size_def)

lemma iterations_steps:
  assumes "tracked_ok (fst st) (fst (snd st))"
  shows "\<exists>st'. iterations E sigma k st = Inr st' \<and> step (fst st') = step (fst st) + int k"
proof -
  from iterations_total [OF assms, of E sigma k] obtain st' where
    "iterations E sigma k st = Inr st'" by blast
  with step_iterations [OF this] show ?thesis by blast
qed

lemma hidden_begin_contact [simp]: "space_hidden (begin_contact arb w) = space_hidden w"
  by (simp add: begin_contact_def marble_collision_def wall_collision_def Let_def)

lemma hidden_fold_begin_contact [simp]:
  "space_hidden (fold begin_contact arbs w) = space_hidden w"
  by (induction arbs arbitrary: w) simp_all

lemma hidden_call_velocity_func [simp]:
  "space_hidden (fst (call_velocity_func E sigma dt a st)) = space_hidden (fst st)"
  by (simp add: call_velocity_func_def Let_def)

lemma hidden_fold_call_velocity_func [simp]:
  "space_hidden (fst (fold (call_velocity_func E sigma dt) as st)) = space_hidden (fst st)"
  by (induction as arbitrary: st) simp_all

lemma hidden_counting_space_step:
  "space_hidden (fst (space_step counting_engine sigma dt st)) = space_hidden (fst st) + 1"
  by (simp add: space_step_def Let_def counting_engine_def)

lemma hidden_counting_iteration:
  assumes "iteration counting_engine sigma st = Inr st'"
  shows "space_hidden (fst st') = space_hidden (fst st) + 1"
proof -
  from iteration_Inr [OF assms] obtain p od where
    "st' = ((fst (space_step counting_engine sigma step_size
               ((fst st)\<lparr>events := (events (fst st))\<lparr>outcome_dists := od\<rparr>\<rparr>, snd (snd st))))
              \<lparr>step := step (fst st) + 1\<rparr>, p,
             snd (space_step counting_engine sigma step_size
               ((fst st)\<lparr>events := (events (fst st))\<lparr>outcome_dists := od\<rparr>\<rparr>, snd (snd st))))"
    by blast
  then show ?thesis by (simp add: hidden_counting_space_step)
qed

lemma hidden_counting_iterations:
  "iterations counting_engine sigma n st = Inr st' \<Longrightarrow>
   space_hidden (fst st') = space_hidden (fst st) + n"
proof (induction n arbitrary: st)
  case 0
  then show ?case by simp
next
  case (Suc n)
  then show ?case
    by (auto split: sum.splits dest!: hidden_counting_iteration)
qed

text \<open>
  Claim C3, amended. \<open>step_max\<close> is 750. From a world at step 0 the loop makes a pass at
  every step from 0 to \<open>step_max\<close>, both included, which is 751 passes and so 751
  integration steps; the number does not depend on the engine, the random source or any
  outcome. (A tracked name that is not registered raises \<open>KeyError\<close> in the first pass.)
\<close>

theorem loop_runs_every_step_up_to_step_max:
  assumes "step self = 0"
    and "list_all (\<lambda>n. dict_get (bodies self) n \<noteq> None)
           (path_record_bodies self @ outcome_record_bodies self)"
  shows "step_max = 750 \<and>
         simulate_loop E sigma (init_outcome_dists self, new_paths (path_record_bodies self), rng)
           = iterations E sigma 751
               (init_outcome_dists self, new_paths (path_record_bodies self), rng) \<and>
         (\<forall>k \<le> 751. \<exists>st'. iterations E sigma k
               (init_outcome_dists self, new_paths (path_record_bodies self), rng) = Inr st' \<and>
             step (fst st') = int k)"
proof (intro conjI allI impI)
  let ?st = "(init_outcome_dists self, new_paths (path_record_bodies self), rng)"
  show "step_max = 750" by (rule step_max_value)
  have "nat (step_max + 1 - step (fst ?st)) = 751"
    using assms(1) by (simp add: step_max_value)
  then show "simulate_loop E sigma ?st = iterations E sigma 751 ?st"
    by (simp only: simulate_loop_iterations)
  fix k :: nat
  have "tracked_ok (fst ?st) (fst (snd ?st))"
    using tracked_ok_setup [OF assms(2)] by simp
  from iterations_steps [OF this, of E sigma k] assms(1)
  show "\<exists>st'. iterations E sigma k ?st = Inr st' \<and> step (fst st') = int k"
    by simp
qed

theorem loop_runs_every_step_up_to_step_max_witness:
  "simulate_loop counting_engine 0
     (init_outcome_dists (MarbleWorld_init 0 [(''A'', marble_A)] [] False [''A''] [''A'']),
      new_paths [''A''], ())
   = iterations counting_engine 0 751
     (init_outcome_dists (MarbleWorld_init 0 [(''A'', marble_A)] [] False [''A''] [''A'']),
      new_paths [''A''], ())"
proof -
  let ?w = "MarbleWorld_init (0::nat) [(''A'', marble_A)] [] False [''A''] [''A'']"
  have reg: "list_all (\<lambda>n. dict_get (bodies ?w) n \<noteq> None)
               (path_record_bodies ?w @ outcome_record_bodies ?w)"
    by (simp add: construction_defs)
  have p: "path_record_bodies ?w = [''A'']"
    by (simp add: construction_defs)
  have s: "step ?w = 0" by simp
  from loop_runs_every_step_up_to_step_max [OF s reg, of counting_engine 0 "()"]
  show ?thesis by (simp add: p)
qed

text \<open>
  Claim C3, as stated, fails: an engine that counts its steps has made 751 of them, not
  750, when \<open>simulate\<close> returns.
\<close>

theorem integration_steps_counterexample:
  "space_hidden (fst (projr (simulate counting_engine 0
      (MarbleWorld_init 0 [] [] False [] []) ()))) = 751 \<and>
   space_hidden (fst (projr (simulate counting_engine 0
      (MarbleWorld_init 0 [] [] False [] []) ()))) \<noteq> 750"
proof -
  let ?w = "MarbleWorld_init (0::nat) [] [] False [] []"
  let ?st = "(init_outcome_dists ?w, new_paths (path_record_bodies ?w), ())"
  have reg: "list_all (\<lambda>n. dict_get (bodies ?w) n \<noteq> None)
               (path_record_bodies ?w @ outcome_record_bodies ?w)"
    by (simp add: construction_defs)
  from simulate_total [OF reg, of counting_engine 0 "()"] obtain res where
    res: "simulate counting_engine 0 ?w () = Inr res" by blast
  from simulate_Inr [OF res] obtain st oc where
    loop: "simulate_loop counting_engine 0 ?st = Inr st"
    and r: "res = ((fst st)\<lparr>events := (events (fst st))\<lparr>outcome := oc\<rparr>\<rparr>, snd st)"
    by blast
  have n: "nat (step_max + 1 - step (fst ?st)) = 751"
    by (simp add: step_max_value)
  from loop have "iterations counting_engine 0 751 ?st = Inr st"
    by (simp only: simulate_loop_iterations n)
  from hidden_counting_iterations [OF this]
  have "space_hidden (fst st) = space_hidden ?w + 751"
    by (simp add: init_outcome_dists_def)
  moreover have "space_hidden ?w = 0"
    by (simp add: construction_defs)
  ultimately show ?thesis by (simp add: res r)
qed

subsection \<open>Steps outside the horizon\<close>

lemma prune_step_eq:
  "0 \<le> n \<Longrightarrow> n \<le> step_max \<Longrightarrow> (Some n = prune_step s) = (Some n = s)"
  by (auto simp: prune_step_def split: option.splits)

lemma prune_world_fields [simp]:
  "step (prune_world w) = step w"
  "space_hidden (prune_world w) = space_hidden w"
  "space_bodies (prune_world w) = space_bodies w"
  "space_shapes (prune_world w) = space_shapes w"
  "n_objs (prune_world w) = n_objs w"
  "events (prune_world w) = events w"
  "bodies (prune_world w) = bodies w"
  "shapes (prune_world w) = shapes w"
  "path_record_bodies (prune_world w) = path_record_bodies w"
  "outcome_record_bodies (prune_world w) = outcome_record_bodies w"
  "walls (prune_world w) = walls w"
  "body (objs (prune_world w) a) = body (objs w a)"
  "name (objs (prune_world w) a) = name (objs w a)"
  "velocity_func (objs (prune_world w) a) = prune_velocity_func (velocity_func (objs w a))"
  by (simp_all add: prune_world_def)

lemma prune_add_wall:
  "prune_world (fst (add_wall w p l h n)) = fst (add_wall (prune_world w) p l h n)"
  by (simp add: prune_world_def add_wall_def Let_def fun_eq_iff)

lemma prune_add_marble:
  "prune_world (fst (add_marble w p v n d z)) =
     fst (add_marble (prune_world w) p v n (prune_step d) (prune_step z))"
  by (simp add: prune_world_def add_marble_def Let_def fun_eq_iff)

lemma prune_add_walls: "prune_world (add_walls ws w) = add_walls ws (prune_world w)"
  by (induction ws arbitrary: w) (simp_all add: add_walls_def prune_add_wall)

lemma prune_add_marbles:
  "prune_world (add_marbles ms w) =
     add_marbles (map (\<lambda>e. (fst e, prune_marble (snd e))) ms) (prune_world w)"
  by (induction ms arbitrary: w)
     (simp_all add: add_marbles_def prune_add_marble prune_marble_def split_def)

lemma prune_init:
  "prune_world (MarbleWorld_init h0 ms ws g prb orb) =
     MarbleWorld_init h0 (map (\<lambda>e. (fst e, prune_marble (snd e))) ms) ws g prb orb"
  by (simp add: MarbleWorld_init_def Let_def prune_add_marbles prune_add_walls)
     (simp add: prune_world_def empty_body_obj_def)


lemma prune_begin_contact:
  "begin_contact arb (prune_world w) = prune_world (begin_contact arb w)"
  by (simp add: prune_world_def begin_contact_def marble_collision_def wall_collision_def Let_def)

lemma prune_fold_begin_contact:
  "fold begin_contact arbs (prune_world w) = prune_world (fold begin_contact arbs w)"
  by (induction arbs arbitrary: w) (simp_all add: prune_begin_contact)

lemma prune_delayed_velocity:
  "0 \<le> n \<Longrightarrow> n \<le> step_max \<Longrightarrow>
   delayed_velocity gs sigma n m vel (prune_step delay) (prune_step noisy) st gravity damping dt
     = delayed_velocity gs sigma n m vel delay noisy st gravity damping dt"
  by (simp add: delayed_velocity_def prune_step_eq)

lemma prune_call_velocity_func:
  assumes "0 \<le> step w" and "step w \<le> step_max"
  shows "call_velocity_func E sigma dt a (prune_world w, r) =
           (prune_world (fst (call_velocity_func E sigma dt a (w, r))),
            snd (call_velocity_func E sigma dt a (w, r)))"
proof (cases "velocity_func (objs w a)")
  case update_velocity_default
  then show ?thesis
    by (simp add: call_velocity_func_def Let_def prune_world_def fun_eq_iff)
next
  case (delayed_velocity_closure vel delay noisy)
  with assms show ?thesis
    by (simp add: call_velocity_func_def Let_def prune_delayed_velocity)
       (simp add: prune_world_def fun_eq_iff)
qed

lemma prune_fold_call_velocity_func:
  assumes "0 \<le> step w" and "step w \<le> step_max"
  shows "fold (call_velocity_func E sigma dt) as (prune_world w, r) =
           (prune_world (fst (fold (call_velocity_func E sigma dt) as (w, r))),
            snd (fold (call_velocity_func E sigma dt) as (w, r)))"
  using assms
proof (induction as arbitrary: w r)
  case Nil
  show ?case by simp
next
  case (Cons a as)
  let ?x = "call_velocity_func E sigma dt a (w, r)"
  have s: "0 \<le> step (fst ?x)" "step (fst ?x) \<le> step_max"
    using Cons.prems by simp_all
  have "fold (call_velocity_func E sigma dt) (a # as) (prune_world w, r)
      = fold (call_velocity_func E sigma dt) as (prune_world (fst ?x), snd ?x)"
    by (simp add: prune_call_velocity_func [OF Cons.prems])
  also have "\<dots> = (prune_world (fst (fold (call_velocity_func E sigma dt) as (fst ?x, snd ?x))),
            snd (fold (call_velocity_func E sigma dt) as (fst ?x, snd ?x)))"
    by (rule Cons.IH [OF s])
  finally show ?case by simp
qed

lemma prune_set_bodies:
  "(prune_world w)\<lparr>space_hidden := h, objs := set_bodies (objs (prune_world w)) k\<rparr> =
     prune_world (w\<lparr>space_hidden := h, objs := set_bodies (objs w) k\<rparr>)"
proof -
  have "(\<lambda>a. (objs w a)\<lparr>velocity_func := prune_velocity_func (velocity_func (objs w a)),
                          body := k a\<rparr>) =
        (\<lambda>a. (objs w a)\<lparr>body := k a,
                          velocity_func := prune_velocity_func (velocity_func (objs w a))\<rparr>)"
    by (rule ext) simp
  then show ?thesis
    by (simp add: prune_world_def set_bodies_def)
qed

lemma prune_space_step:
  assumes "0 \<le> step w" and "step w \<le> step_max"
  shows "space_step E sigma dt (prune_world w, r) =
           (prune_world (fst (space_step E sigma dt (w, r))), snd (space_step E sigma dt (w, r)))"
proof -
  let ?c = "collide E dt (space_bodies w) (space_shapes w) (space_hidden w)
               (\<lambda>a. body (objs w a))"
  let ?wa = "w\<lparr>space_hidden := fst (fst ?c), objs := set_bodies (objs w) (snd (fst ?c))\<rparr>"
  let ?wb = "fold begin_contact (snd ?c) ?wa"
  let ?x = "fold (call_velocity_func E sigma dt) (space_bodies ?wb) (?wb, r)"
  let ?wc = "fst ?x"
  let ?s = "solve E dt (space_bodies ?wc) (space_shapes ?wc) (space_hidden ?wc)
               (\<lambda>a. body (objs ?wc a))"
  let ?wd = "?wc\<lparr>space_hidden := fst ?s, objs := set_bodies (objs ?wc) (snd ?s)\<rparr>"
  have orig: "space_step E sigma dt (w, r) = (?wd, snd ?x)"
    by (simp add: space_step_def Let_def)
  have sb: "0 \<le> step ?wb" "step ?wb \<le> step_max"
    using assms by simp_all
  have 1: "(prune_world w)\<lparr>space_hidden := fst (fst ?c),
              objs := set_bodies (objs (prune_world w)) (snd (fst ?c))\<rparr> = prune_world ?wa"
    by (rule prune_set_bodies)
  have 2: "fold begin_contact (snd ?c) (prune_world ?wa) = prune_world ?wb"
    by (rule prune_fold_begin_contact)
  have 3: "fold (call_velocity_func E sigma dt) (space_bodies ?wb) (prune_world ?wb, r)
             = (prune_world ?wc, snd ?x)"
    by (rule prune_fold_call_velocity_func [OF sb])
  have 4: "(prune_world ?wc)\<lparr>space_hidden := fst ?s,
              objs := set_bodies (objs (prune_world ?wc)) (snd ?s)\<rparr> = prune_world ?wd"
    by (rule prune_set_bodies)
  have "space_step E sigma dt (prune_world w, r) = (prune_world ?wd, snd ?x)"
    unfolding space_step_def Let_def fst_conv snd_conv prune_world_fields 1 2 3 4 ..
  with orig show ?thesis by simp
qed


lemma prune_record_paths: "record_paths (prune_world w) bs p = record_paths w bs p"
  by (induction bs arbitrary: p) (simp_all split: option.splits)

lemma prune_sample_outcome_dists:
  "sample_outcome_dists (prune_world w) bs od = sample_outcome_dists w bs od"
  by (induction bs arbitrary: od) (simp_all add: Let_def split: option.splits)

lemma prune_classify_outcomes:
  "classify_outcomes (prune_world w) bs oc = classify_outcomes w bs oc"
  by (induction bs arbitrary: oc) (simp_all split: option.splits)

lemma prune_events_update:
  "(prune_world w)\<lparr>events := ev\<rparr> = prune_world (w\<lparr>events := ev\<rparr>)"
  by (simp add: prune_world_def)

lemma prune_step_update:
  "(prune_world w)\<lparr>step := n\<rparr> = prune_world (w\<lparr>step := n\<rparr>)"
  by (simp add: prune_world_def)

lemma prune_iteration:
  assumes "0 \<le> step (fst st)" and "step (fst st) \<le> step_max"
  shows "iteration E sigma (prune_state st) =
           (case iteration E sigma st of Inl e \<Rightarrow> Inl e | Inr st' \<Rightarrow> Inr (prune_state st'))"
proof (cases "record_paths (fst st) (path_record_bodies (fst st)) (fst (snd st))")
  case (Inl e)
  then show ?thesis
    by (simp add: iteration_def Let_def prune_state_def prune_record_paths)
next
  case p: (Inr p)
  show ?thesis
  proof (cases "sample_outcome_dists (fst st) (outcome_record_bodies (fst st))
                  (outcome_dists (events (fst st)))")
    case (Inl e)
    with p show ?thesis
      by (simp add: iteration_def Let_def prune_state_def prune_record_paths
            prune_sample_outcome_dists)
  next
    case (Inr od)
    let ?wa = "(fst st)\<lparr>events := (events (fst st))\<lparr>outcome_dists := od\<rparr>\<rparr>"
    have s: "0 \<le> step ?wa" "step ?wa \<le> step_max" using assms by simp_all
    note sp = prune_space_step [OF s, of E sigma step_size "snd (snd st)"]
    from p Inr show ?thesis
      by (simp add: iteration_def Let_def prune_state_def prune_record_paths
            prune_sample_outcome_dists prune_events_update sp prune_step_update)
  qed
qed

lemma prune_simulate_loop:
  "0 \<le> step (fst st) \<Longrightarrow>
   simulate_loop E sigma (prune_state st) =
     (case simulate_loop E sigma st of Inl e \<Rightarrow> Inl e | Inr st' \<Rightarrow> Inr (prune_state st'))"
proof (induction E sigma st rule: simulate_loop.induct)
  case (1 E sigma st)
  have ps: "step (fst (prune_state st)) = step (fst st)" by (simp add: prune_state_def)
  show ?case
  proof (cases "step (fst st) \<le> step_max")
    case False
    then show ?thesis
      by (simp add: simulate_loop.simps [of E sigma st]
            simulate_loop.simps [of E sigma "prune_state st"] ps)
  next
    case True
    note it = prune_iteration [OF "1.prems" True, of E sigma]
    show ?thesis
    proof (cases "iteration E sigma st")
      case (Inl e)
      with True it show ?thesis
        by (simp add: simulate_loop.simps [of E sigma st]
              simulate_loop.simps [of E sigma "prune_state st"] ps)
    next
      case (Inr st')
      from step_iteration [OF Inr] "1.prems" have "0 \<le> step (fst st')" by simp
      from "1.IH" [OF True Inr this] True it Inr show ?thesis
        by (simp add: simulate_loop.simps [of E sigma st]
              simulate_loop.simps [of E sigma "prune_state st"] ps)
    qed
  qed
qed

lemma prune_init_outcome_dists:
  "init_outcome_dists (prune_world w) = prune_world (init_outcome_dists w)"
  by (simp add: init_outcome_dists_def prune_world_def)

lemma prune_simulate:
  assumes "0 \<le> step w"
  shows "simulate E sigma (prune_world w) rng =
           (case simulate E sigma w rng of Inl e \<Rightarrow> Inl e | Inr res \<Rightarrow> Inr (prune_state res))"
proof -
  let ?st = "(init_outcome_dists w, new_paths (path_record_bodies w), rng)"
  have a: "(init_outcome_dists (prune_world w), new_paths (path_record_bodies w), rng)
             = prune_state ?st"
    by (simp add: prune_state_def prune_init_outcome_dists)
  have "0 \<le> step (fst ?st)" using assms by simp
  note l = prune_simulate_loop [OF this, of E sigma]
  show ?thesis
  proof (cases "simulate_loop E sigma ?st")
    case (Inl e)
    with l show ?thesis by (simp add: simulate_def a)
  next
    case (Inr st')
    with l show ?thesis
      by (simp add: simulate_def a Let_def prune_state_def prune_classify_outcomes
            prune_events_update split: sum.splits)
  qed
qed

lemma outputs_prune_simulate:
  "0 \<le> step w \<Longrightarrow> outputs (simulate E sigma (prune_world w) rng) = outputs (simulate E sigma w rng)"
  by (simp add: prune_simulate outputs_def prune_state_def split: sum.splits)

lemma outputs_prune_trial:
  "outputs (run_trial E sigma (prune_trial tr) orb prb rng) = outputs (run_trial E sigma tr orb prb rng)"
proof -
  let ?w = "MarbleWorld_init (new_space E) (trial_marbles tr) (trial_extra_walls tr)
              (trial_gate tr) prb orb"
  have "run_trial E sigma (prune_trial tr) orb prb rng = simulate E sigma (prune_world ?w) rng"
    by (simp add: run_trial_def MarbleWorld_def prune_trial_def prune_init)
  moreover have "run_trial E sigma tr orb prb rng = simulate E sigma ?w rng"
    by (simp add: run_trial_def MarbleWorld_def)
  moreover have "0 \<le> step ?w" by simp
  ultimately show ?thesis by (simp add: outputs_prune_simulate)
qed


lemma dict_get_None: "(dict_get d k = None) = (k \<notin> fst ` set d)"
proof (induction d)
  case Nil
  show ?case by simp
next
  case (Cons e d)
  obtain k' v' where e: "e = (k', v')" by (cases e)
  from Cons show ?case unfolding e by (cases "k' = k") simp_all
qed

lemma keys_dict_set_new: "fst ` set (dict_set d k v) = insert k (fst ` set d)"
proof (induction d)
  case Nil
  show ?case by simp
next
  case (Cons e d)
  obtain k' v' where e: "e = (k', v')" by (cases e)
  from Cons show ?case unfolding e by (cases "k' = k") auto
qed

lemma bodies_add_walls [simp]: "bodies (add_walls ws w) = bodies w"
  by (induction ws arbitrary: w) (simp_all add: add_walls_def add_wall_def Let_def)

lemma keys_add_marbles:
  "fst ` set (bodies (add_marbles ms w)) = fst ` set (bodies w) \<union> fst ` set ms"
proof (induction ms arbitrary: w)
  case Nil
  show ?case by (simp add: add_marbles_def)
next
  case (Cons e ms)
  obtain n m where e: "e = (n, m)" by (cases e)
  let ?wa = "fst (add_marble w (marble_position m) (marble_velocity m) n (marble_delay m)
                     (marble_noisy m))"
  have eq: "add_marbles ((n, m) # ms) w = add_marbles ms ?wa"
    by (simp add: add_marbles_def)
  have "fst ` set (bodies ?wa) = insert n (fst ` set (bodies w))"
    by (simp add: add_marble_def Let_def keys_dict_set_new)
  with Cons.IH [of ?wa] show ?case unfolding e eq by auto
qed

lemma registered_init:
  "(dict_get (bodies (MarbleWorld_init h0 ms ws g prb orb)) n \<noteq> None) = (n \<in> fst ` set ms)"
  by (simp add: dict_get_None MarbleWorld_init_def Let_def keys_add_marbles)

lemma tracked_init [simp]:
  "path_record_bodies (MarbleWorld_init h0 ms ws g prb orb) = prb"
  "outcome_record_bodies (MarbleWorld_init h0 ms ws g prb orb) = orb"
proof -
  have a: "\<And>ws w. path_record_bodies (add_walls ws w) = path_record_bodies (w::'a world)"
    "\<And>ws w. outcome_record_bodies (add_walls ws w) = outcome_record_bodies (w::'a world)"
    subgoal for ws w
      by (induction ws arbitrary: w) (simp_all add: add_walls_def add_wall_def Let_def)
    subgoal for ws w
      by (induction ws arbitrary: w) (simp_all add: add_walls_def add_wall_def Let_def)
    done
  have b: "\<And>ms w. path_record_bodies (add_marbles ms w) = path_record_bodies (w::'a world)"
    "\<And>ms w. outcome_record_bodies (add_marbles ms w) = outcome_record_bodies (w::'a world)"
    subgoal for ms w
      by (induction ms arbitrary: w)
         (simp_all add: add_marbles_def add_marble_def Let_def split_def)
    subgoal for ms w
      by (induction ms arbitrary: w)
         (simp_all add: add_marbles_def add_marble_def Let_def split_def)
    done
  show "path_record_bodies (MarbleWorld_init h0 ms ws g prb orb) = prb"
    "outcome_record_bodies (MarbleWorld_init h0 ms ws g prb orb) = orb"
    by (simp_all add: MarbleWorld_init_def Let_def a b)
qed

lemma run_trial_total:
  assumes "set (prb @ orb) \<subseteq> fst ` set (trial_marbles tr)"
  shows "\<exists>res. run_trial E sigma tr orb prb rng = Inr res"
proof -
  let ?w = "MarbleWorld_init (new_space E) (trial_marbles tr) (trial_extra_walls tr)
              (trial_gate tr) prb orb"
  have "\<forall>n \<in> set (prb @ orb). dict_get (bodies ?w) n \<noteq> None"
  proof
    fix n assume "n \<in> set (prb @ orb)"
    with assms have "n \<in> fst ` set (trial_marbles tr)" by blast
    then show "dict_get (bodies ?w) n \<noteq> None" by (simp only: registered_init)
  qed
  then have "list_all (\<lambda>n. dict_get (bodies ?w) n \<noteq> None)
          (path_record_bodies ?w @ outcome_record_bodies ?w)"
    by (simp only: list_all_iff tracked_init) 
  from simulate_total [OF this, of E sigma rng] show ?thesis
    by (simp add: run_trial_def MarbleWorld_def)
qed

text \<open>
  Claim C7. A launch step or a noise step outside \<open>[0, step_max]\<close> never fires: two
  trials that differ only in such steps, or in such a step being absent, return the same
  event log and the same paths, or raise the same error. Neither construction nor
  simulation raises because of such a step: when every tracked name is a marble of the
  trial, the run returns.
\<close>

theorem steps_outside_the_horizon_never_fire:
  assumes "prune_trial tr = prune_trial tr'"
  shows "outputs (run_trial E sigma tr orb prb rng) = outputs (run_trial E sigma tr' orb prb rng) \<and>
         (set (prb @ orb) \<subseteq> fst ` set (trial_marbles tr) \<longrightarrow>
            (\<exists>res. run_trial E sigma tr orb prb rng = Inr res))"
proof -
  have "outputs (run_trial E sigma tr orb prb rng)
          = outputs (run_trial E sigma (prune_trial tr) orb prb rng)"
    by (simp add: outputs_prune_trial)
  also have "\<dots> = outputs (run_trial E sigma tr' orb prb rng)"
    by (simp add: assms outputs_prune_trial)
  finally show ?thesis using run_trial_total [of prb orb tr E sigma rng] by blast
qed

theorem steps_outside_the_horizon_never_fire_witness:
  "outputs (run_trial counting_engine 0
      \<lparr>trial_marbles = [(''B'', marble_B)], trial_extra_walls = [], trial_gate = False\<rparr>
      [''B''] [''B''] ())
   = outputs (run_trial counting_engine 0
      \<lparr>trial_marbles = [(''B'', marble_B\<lparr>marble_delay := None, marble_noisy := None\<rparr>)],
        trial_extra_walls = [], trial_gate = False\<rparr>
      [''B''] [''B''] ()) \<and>
   (\<exists>res. run_trial counting_engine 0
      \<lparr>trial_marbles = [(''B'', marble_B)], trial_extra_walls = [], trial_gate = False\<rparr>
      [''B''] [''B''] () = Inr res)"
proof -
  let ?tr = "\<lparr>trial_marbles = [(''B'', marble_B)], trial_extra_walls = [], trial_gate = False\<rparr>"
  let ?tr' = "\<lparr>trial_marbles = [(''B'', marble_B\<lparr>marble_delay := None, marble_noisy := None\<rparr>)],
        trial_extra_walls = [], trial_gate = False\<rparr>"
  have h: "prune_trial ?tr = prune_trial ?tr'"
    by (simp add: prune_trial_def prune_marble_def prune_step_def marble_B_def step_max_value)
  from steps_outside_the_horizon_never_fire [OF h, of counting_engine 0 "[''B'']" "[''B'']" "()"]
  show ?thesis by simp
qed

subsection \<open>The velocity of a marble that nothing hits\<close>




lemma shapes_call_velocity_func [simp]:
  "space_shapes (fst (call_velocity_func E sigma dt b st)) = space_shapes (fst st)"
  by (simp add: call_velocity_func_def Let_def)

lemma shapes_fold_call_velocity_func [simp]:
  "space_shapes (fst (fold (call_velocity_func E sigma dt) bs st)) = space_shapes (fst st)"
  by (induction bs arbitrary: st) simp_all





lemma objs_begin_contact [simp]: "objs (begin_contact arb w) = objs w"
  by (simp add: begin_contact_def marble_collision_def wall_collision_def Let_def)

lemma objs_fold_begin_contact [simp]: "objs (fold begin_contact arbs w) = objs w"
  by (induction arbs arbitrary: w) simp_all







subsection \<open>The marbles of a constructed world\<close>

lemma dict_get_dict_set_other: "k' \<noteq> k \<Longrightarrow> dict_get (dict_set d k v) k' = dict_get d k'"
  by (induction d) auto

lemma count_list_fresh: "list_all (\<lambda>a. a < n) xs \<Longrightarrow> count_list xs (n::nat) = 0"
  by (induction xs) auto

lemma body_mass_fresh: "list_all (\<lambda>s. shape_body s < n) shs \<Longrightarrow> body_mass shs n = 0"
  by (induction shs) (auto simp: body_mass_def)

lemma body_mass_append: "body_mass (shs @ [s]) a = body_mass shs a + (if shape_body s = a then mass s else 0)"
  by (simp add: body_mass_def)

lemma add_marble_is_marble:
  assumes "world_wf w"
  shows "is_marble (fst (add_marble w (marble_position m) (marble_velocity m) nm
                           (marble_delay m) (marble_noisy m))) nm m (n_objs w)"
proof -
  from assms have b: "list_all (\<lambda>a. a < n_objs w) (space_bodies w)"
    and s: "list_all (\<lambda>s. shape_body s < n_objs w) (space_shapes w)"
    by (simp_all add: world_wf_def)
  show ?thesis
    by (simp add: is_marble_def marble_at_def add_marble_def Let_def dict_get_dict_set
          count_list_fresh [OF b] body_mass_append body_mass_fresh [OF s])
qed

lemma add_marble_keeps_marble:
  assumes "is_marble w nm m a" and "n \<noteq> nm"
  shows "is_marble (fst (add_marble w p v n d z)) nm m a"
  using assms
  by (auto simp: is_marble_def marble_at_def add_marble_def Let_def dict_get_dict_set_other
        body_mass_append)

lemma add_marbles_keeps_marble:
  "is_marble w nm m a \<Longrightarrow> nm \<notin> fst ` set ms \<Longrightarrow> is_marble (add_marbles ms w) nm m a"
proof (induction ms arbitrary: w)
  case Nil
  then show ?case by (simp add: add_marbles_def)
next
  case (Cons e ms)
  obtain n m' where e: "e = (n, m')" by (cases e)
  let ?wa = "fst (add_marble w (marble_position m') (marble_velocity m') n (marble_delay m')
                     (marble_noisy m'))"
  from Cons.prems e have "n \<noteq> nm" by auto
  from add_marble_keeps_marble [OF Cons.prems(1) this] have "is_marble ?wa nm m a" .
  moreover from Cons.prems have "nm \<notin> fst ` set ms" by simp
  ultimately have "is_marble (add_marbles ms ?wa) nm m a" by (rule Cons.IH)
  then show ?case by (simp add: add_marbles_def e)
qed

lemma add_marbles_is_marble:
  "world_wf w \<Longrightarrow> distinct (map fst ms) \<Longrightarrow> (nm, m) \<in> set ms \<Longrightarrow>
   \<exists>a. is_marble (add_marbles ms w) nm m a"
proof (induction ms arbitrary: w)
  case Nil
  then show ?case by simp
next
  case (Cons e ms)
  obtain n m' where e: "e = (n, m')" by (cases e)
  let ?wa = "fst (add_marble w (marble_position m') (marble_velocity m') n (marble_delay m')
                     (marble_noisy m'))"
  have eq: "add_marbles (e # ms) w = add_marbles ms ?wa"
    by (simp add: add_marbles_def e)
  have wf: "world_wf ?wa" using Cons.prems(1) by (rule add_marble_wf)
  from Cons.prems(2) have dist: "distinct (map fst ms)" and nin: "n \<notin> fst ` set ms"
    by (simp_all add: e)
  show ?case
  proof (cases "(nm, m) = (n, m')")
    case True
    then have "is_marble ?wa nm m (n_objs w)"
      using add_marble_is_marble [OF Cons.prems(1), of m' n] by simp
    moreover from True nin have "nm \<notin> fst ` set ms" by simp
    ultimately have "is_marble (add_marbles ms ?wa) nm m (n_objs w)"
      by (rule add_marbles_keeps_marble)
    then show ?thesis unfolding eq by blast
  next
    case False
    with Cons.prems(3) e have "(nm, m) \<in> set ms" by auto
    from Cons.IH [OF wf dist this] show ?thesis unfolding eq .
  qed
qed

lemma constructed_marble:
  assumes "distinct (map fst ms)" and "(nm, m) \<in> set ms"
  shows "\<exists>a. dict_get (bodies (MarbleWorld_init h0 ms ws g prb orb)) nm = Some a \<and>
           marble_at (MarbleWorld_init h0 ms ws g prb orb) a
             (marble_velocity m) (marble_delay m) (marble_noisy m) \<and>
           velocity (body (objs (MarbleWorld_init h0 ms ws g prb orb) a)) = (0, 0) \<and>
           angle (body (objs (MarbleWorld_init h0 ms ws g prb orb) a)) = 0"
proof -
  let ?wz = "\<lparr>step = 0, space_hidden = h0, space_bodies = [], space_shapes = [],
                 objs = (\<lambda>a. empty_body_obj), n_objs = 0,
                 events = \<lparr>collisions = [], wall_bounces = [], outcome = Map.empty,
                           outcome_dists = Map.empty\<rparr>,
                 bodies = [], shapes = [],
                 path_record_bodies = prb, outcome_record_bodies = orb,
                 walls = default_walls @ ws\<rparr>"
  have "world_wf ?wz" by (simp add: world_wf_def)
  from add_walls_bodies [OF this, of "default_walls @ ws"]
  have "world_wf (add_walls (default_walls @ ws) ?wz)" by simp
  from add_marbles_is_marble [OF this assms] show ?thesis
    by (auto simp: MarbleWorld_init_def Let_def is_marble_def)
qed

subsection \<open>What the paths record\<close>









subsection \<open>The shared noise constant\<close>

















end
